theory Spec2Isabelle
  imports Complex_Main "HOL-Library.Monad_Syntax" "HOL-Library.Word"
begin

section \<open>The artifact store of sar_simulator.c\<close>

text \<open>
  The store is a singly linked chain of \<open>matrix\<close> structs that starts at the header
  allocated in \<open>main\<close>. It is modelled on an explicit heap: an address is a natural
  number, \<open>NULL\<close> is address 0, and a heap maps each allocated address to the struct
  stored there.
\<close>

type_synonym ptr = nat

abbreviation NULL :: ptr where
  "NULL \<equiv> 0"

text \<open>
  A buffer of \<open>complex double\<close> samples. A slot that was allocated and never written
  holds no determinate value (\<open>None\<close>). No rounding is modelled: sample values are only
  passed around by this file.
\<close>

type_synonym buffer = "complex option list"

text \<open>
  Modelled from the spec: the declaration of \<open>struct matrix\<close> lives in sar_simulator.h,
  which is not among the sources. The fields are the ones sar_simulator.c reads and
  writes (\<open>name\<close>, \<open>rows\<close>, \<open>cols\<close>, \<open>data\<close>, \<open>next\<close>); \<open>rows\<close> and \<open>cols\<close> are
  non-negative integers; \<open>name\<close> is a C string (no embedded NUL, so \<open>strcmp\<close>
  returning 0 is equality of strings) in an array whose capacity is not bounded here;
  \<open>data\<close> points to a buffer of samples and \<open>next\<close> to the next struct.
\<close>

record matrix =
  name :: string
  rows :: nat
  cols :: nat
  data :: ptr
  "next" :: ptr

text \<open>\<open>memset(p, 0, sizeof(matrix))\<close>: empty name, zero dimensions, null pointers.\<close>

definition zero_matrix :: matrix where
  "zero_matrix = \<lparr>name = [], rows = 0, cols = 0, data = NULL, next = NULL\<rparr>"

text \<open>
  Modelled from the spec: \<open>radar_variables\<close> is declared in the missing header as well.
  This file touches \<open>mode\<close> and \<open>radar_data_filename\<close>; every other field is used by the
  collaborators only and is kept as one opaque component.
\<close>

record 'v radar_variables =
  mode :: int
  radar_data_filename :: string
  parameters :: 'v

text \<open>
  The machine state a function of the program can read and change: the heap of
  \<open>matrix\<close> structs, the heap of sample buffers, the allocation mark \<open>brk\<close> (\<open>malloc\<close>
  hands out the address \<open>brk\<close> and advances it; allocation is assumed to succeed),
  the unread rest of standard input, and the \<open>variables\<close> local of \<open>main\<close>.
  The pointer parameter that the source calls \<open>data\<close> is written \<open>store\<close> below,
  since \<open>data\<close> is also the name of a field.
\<close>

record 'v machine =
  nodes :: "ptr \<rightharpoonup> matrix"
  bufs :: "ptr \<rightharpoonup> buffer"
  brk :: ptr
  stdin :: string
  variables :: "'v radar_variables"

text \<open>\<open>malloc(sizeof(matrix))\<close>: the fresh address; the memory there is not yet a struct.\<close>

definition malloc_matrix :: "'v machine \<Rightarrow> ptr \<times> 'v machine" where
  "malloc_matrix m = (brk m, m\<lparr>brk := Suc (brk m)\<rparr>)"

text \<open>
  \<open>malloc(n * sizeof(complex double))\<close>: a fresh buffer of \<open>n\<close> slots, none of them
  written. The byte count is assumed not to wrap \<open>size_t\<close> (it cannot for a 32-bit
  count and a 64-bit \<open>size_t\<close>); a request for zero bytes yields a buffer with no slot.
\<close>

definition malloc_buffer :: "nat \<Rightarrow> 'v machine \<Rightarrow> ptr \<times> 'v machine" where
  "malloc_buffer n m =
     (brk m, m\<lparr>bufs := (bufs m)(brk m \<mapsto> replicate n None), brk := Suc (brk m)\<rparr>)"

definition memset_matrix :: "ptr \<Rightarrow> 'v machine \<Rightarrow> 'v machine" where
  "memset_matrix p m = m\<lparr>nodes := (nodes m)(p \<mapsto> zero_matrix)\<rparr>"

text \<open>
  A result \<open>None\<close> of a function of the model means that the call does not return to
  its caller: it dereferences a pointer that is not an allocated struct, a collaborator
  ends the process, or a loop never exits.
\<close>

text \<open>
  \<open>deref h p\<close> reads the struct behind \<open>p\<close> for an access \<open>p->field\<close>;
  \<open>update_matrix p f\<close> is an assignment to a field of \<open>*p\<close>. Neither returns when
  \<open>p\<close> is null or not the address of a struct.
\<close>

definition deref :: "(ptr \<rightharpoonup> matrix) \<Rightarrow> ptr \<Rightarrow> matrix option" where
  "deref h p = (if p = NULL then None else h p)"

definition update_matrix :: "ptr \<Rightarrow> (matrix \<Rightarrow> matrix) \<Rightarrow> 'v machine \<Rightarrow> 'v machine option" where
  "update_matrix p f m = do {
     node \<leftarrow> deref (nodes m) p;
     Some (m\<lparr>nodes := (nodes m)(p \<mapsto> f node)\<rparr>)
   }"

subsection \<open>\<open>get_matrix\<close> (lines 199-210)\<close>

text \<open>The \<open>while(ptr != NULL)\<close> loop of \<open>get_matrix\<close>, started at \<open>ptr\<close>.\<close>

partial_function (option) get_matrix_loop ::
  "(ptr \<rightharpoonup> matrix) \<Rightarrow> string \<Rightarrow> ptr \<Rightarrow> ptr option" where
  "get_matrix_loop h nm ptr =
     (if ptr \<noteq> NULL then
        (case h ptr of
           None \<Rightarrow> None
         | Some node \<Rightarrow>
             if nm = name node then Some ptr
             else get_matrix_loop h nm (next node))
      else Some NULL)"

declare get_matrix_loop.simps [code]

definition get_matrix :: "(ptr \<rightharpoonup> matrix) \<Rightarrow> ptr \<Rightarrow> string \<Rightarrow> ptr option" where
  "get_matrix h store nm =
     (if store = NULL then Some NULL else get_matrix_loop h nm store)"

subsection \<open>\<open>get_last_node\<close> (lines 212-225)\<close>

text \<open>The \<open>do ... while(1)\<close> loop of \<open>get_last_node\<close>: walk to the struct whose \<open>next\<close> is null.\<close>

partial_function (option) last_node_loop :: "(ptr \<rightharpoonup> matrix) \<Rightarrow> ptr \<Rightarrow> ptr option" where
  "last_node_loop h ptr =
     (case h ptr of
        None \<Rightarrow> None
      | Some node \<Rightarrow> if next node = NULL then Some ptr else last_node_loop h (next node))"

declare last_node_loop.simps [code]

definition get_last_node :: "ptr \<Rightarrow> 'v machine \<Rightarrow> (ptr \<times> 'v machine) option" where
  "get_last_node store m =
     (if store = NULL then Some (NULL, m)
      else do {
        ptr \<leftarrow> last_node_loop (nodes m) store;
        node \<leftarrow> nodes m ptr;
        let (a, m1) = malloc_matrix m;
        let m2 = m1\<lparr>nodes := (nodes m1)(ptr \<mapsto> node\<lparr>next := a\<rparr>)\<rparr>;
        linked \<leftarrow> nodes m2 ptr;
        let m3 = memset_matrix (next linked) m2;
        tail \<leftarrow> nodes m3 ptr;
        Some (next tail, m3)
      })"

subsection \<open>Well-formed stores\<close>

text \<open>
  \<open>chain h p as\<close>: following \<open>next\<close> from \<open>p\<close> visits exactly the allocated structs at
  the addresses \<open>as\<close>, in this order, and then reaches \<open>NULL\<close>.
\<close>

fun chain :: "(ptr \<rightharpoonup> matrix) \<Rightarrow> ptr \<Rightarrow> ptr list \<Rightarrow> bool" where
  "chain h p [] \<longleftrightarrow> p = NULL"
| "chain h p (a # as) \<longleftrightarrow>
     p = a \<and> a \<noteq> NULL \<and> (case h a of None \<Rightarrow> False | Some node \<Rightarrow> chain h (next node) as)"

text \<open>\<open>named h nm a\<close>: the struct at \<open>a\<close> carries the name \<open>nm\<close>.\<close>

definition named :: "(ptr \<rightharpoonup> matrix) \<Rightarrow> string \<Rightarrow> ptr \<Rightarrow> bool" where
  "named h nm a = (case h a of None \<Rightarrow> False | Some node \<Rightarrow> name node = nm)"


section \<open>Console, collaborators and the trace of a run\<close>

abbreviation EOF :: int where
  "EOF \<equiv> - 1"

text \<open>\<open>getchar()\<close>: the next byte of standard input as a non-negative int, or \<open>EOF\<close>.\<close>

definition getchar :: "'v machine \<Rightarrow> int \<times> 'v machine" where
  "getchar m =
     (case stdin m of
        [] \<Rightarrow> (EOF, m)
      | c # cs \<Rightarrow> (of_char c, m\<lparr>stdin := cs\<rparr>))"

text \<open>White space in the C locale: space, \<open>\t\<close>, \<open>\n\<close>, \<open>\v\<close>, \<open>\f\<close>, \<open>\r\<close>.\<close>

definition isspace :: "char \<Rightarrow> bool" where
  "isspace c \<longleftrightarrow>
     c = CHR 0x20 \<or> c = CHR 0x09 \<or> c = CHR 0x0A \<or> c = CHR 0x0B \<or> c = CHR 0x0C \<or> c = CHR 0x0D"

text \<open>
  \<open>scanf("%s", variables.radar_data_filename)\<close>: skips white space, then stores the
  longest run of non-space bytes; the result is 1, or \<open>EOF\<close> when the input ends before
  any such byte (nothing is stored then). The capacity of the array is not bounded here.
\<close>

definition scanf_string :: "'v machine \<Rightarrow> int \<times> 'v machine" where
  "scanf_string m =
     (let rest = dropWhile isspace (stdin m) in
      if rest = [] then (EOF, m\<lparr>stdin := []\<rparr>)
      else (1, m\<lparr>stdin := dropWhile (\<lambda>c. \<not> isspace c) rest,
                  variables := (variables m)
                    \<lparr>radar_data_filename := takeWhile (\<lambda>c. \<not> isspace c) rest\<rparr>\<rparr>))"

text \<open>
  \<open>scanf("%c", &pc)\<close>: stores the next byte in \<open>pc\<close> and yields 1; at the end of the
  input it yields \<open>EOF\<close> and leaves \<open>pc\<close> as it was.
\<close>

definition scanf_char :: "char \<Rightarrow> 'v machine \<Rightarrow> int \<times> char \<times> 'v machine" where
  "scanf_char pc m =
     (case stdin m of
        [] \<Rightarrow> (EOF, pc, m)
      | c # cs \<Rightarrow> (1, c, m\<lparr>stdin := cs\<rparr>))"

text \<open>
  The functions this file calls and that are defined elsewhere in the repository
  (sar_simulator.h, cinsnowfilters.h and the algorithm files) are parameters of the
  model. Each receives the store pointer where the source passes it and works on the
  whole machine state, so it may read the console, allocate, and change the store and
  \<open>variables\<close>. \<open>None\<close>: the collaborator does not return.
\<close>

record 'v externals =
  read_radar_file :: "ptr \<Rightarrow> 'v machine \<Rightarrow> (int \<times> 'v machine) option"
  write_data :: "ptr \<Rightarrow> 'v machine \<Rightarrow> (int \<times> 'v machine) option"
  chirp_generator :: "ptr \<Rightarrow> 'v machine \<Rightarrow> 'v machine option"
  chirp_matched_generator :: "ptr \<Rightarrow> 'v machine \<Rightarrow> 'v machine option"
  fft_waveform :: "nat \<Rightarrow> ptr \<Rightarrow> ptr \<Rightarrow> 'v machine \<Rightarrow> 'v machine option"
  pulse_compress_signal :: "ptr \<Rightarrow> 'v machine \<Rightarrow> 'v machine option"
  calculate_compressed_pulse_resolution :: "ptr \<Rightarrow> 'v machine \<Rightarrow> (real \<times> 'v machine) option"
  insert_waveform_in_scene :: "ptr \<Rightarrow> 'v machine \<Rightarrow> 'v machine option"
  radar_imager :: "ptr \<Rightarrow> 'v machine \<Rightarrow> 'v machine option"
  cinsnowfilters :: "ptr \<Rightarrow> 'v machine \<Rightarrow> 'v machine option"
  pulse_compress_image :: "ptr \<Rightarrow> 'v machine \<Rightarrow> 'v machine option"
  gbp :: "ptr \<Rightarrow> 'v machine \<Rightarrow> 'v machine option"
  gbp_fft :: "ptr \<Rightarrow> 'v machine \<Rightarrow> 'v machine option"

text \<open>
  Modelled from the spec: what \<open>chirp_generator\<close> and \<open>chirp_matched_generator\<close>,
  which are not in this file, publish (sections 4.2, steps 1 to 4, and 8). "chirp" is a
  waveform of length \<open>R\<close>, its row count, so the struct \<open>c\<close> it is published in
  describes \<open>R\<close> elements; "match" is the matched filter for it, of the same length,
  published in the struct \<open>t\<close>.
\<close>

definition generated_waveforms :: "matrix \<Rightarrow> matrix \<Rightarrow> bool" where
  "generated_waveforms c t \<longleftrightarrow> rows c * cols c = rows c \<and> rows t = rows c"

text \<open>
  The trace of a run lists, in order, what \<open>main\<close>, \<open>simulate\<close> and \<open>process_data\<close>
  print and which functions they call (the store helpers \<open>get_matrix\<close> and
  \<open>get_last_node\<close> and the C library apart). \<open>Fft_waveform n src dst\<close> carries the
  three arguments of the call.
\<close>

datatype func =
    Read_radar_file
  | Simulate
  | Process_data
  | Build_metadata
  | Write_data
  | Chirp_generator
  | Chirp_matched_generator
  | Fft_waveform nat ptr ptr
  | Pulse_compress_signal
  | Calculate_compressed_pulse_resolution
  | Insert_waveform_in_scene
  | Radar_imager
  | Cinsnowfilters
  | Pulse_compress_image
  | Gbp
  | Gbp_fft

datatype event =
    Printf string
  | Printf_lf string real
  | Call func

record 'v world =
  mach :: "'v machine"
  trace :: "event list"

definition printf :: "string \<Rightarrow> 'v world \<Rightarrow> 'v world" where
  "printf s w = w\<lparr>trace := trace w @ [Printf s]\<rparr>"

definition printf_lf :: "string \<Rightarrow> real \<Rightarrow> 'v world \<Rightarrow> 'v world" where
  "printf_lf s x w = w\<lparr>trace := trace w @ [Printf_lf s x]\<rparr>"

text \<open>Entering a function of this file that prints or calls collaborators itself.\<close>

definition enter :: "func \<Rightarrow> 'v world \<Rightarrow> 'v world" where
  "enter f w = w\<lparr>trace := trace w @ [Call f]\<rparr>"

text \<open>A call of a function that works on the machine state only.\<close>

definition call :: "func \<Rightarrow> ('v machine \<Rightarrow> 'v machine option) \<Rightarrow> 'v world \<Rightarrow> 'v world option" where
  "call f run w = do {
     m \<leftarrow> run (mach w);
     Some \<lparr>mach = m, trace = trace w @ [Call f]\<rparr>
   }"

definition call_value ::
  "func \<Rightarrow> ('v machine \<Rightarrow> ('a \<times> 'v machine) option) \<Rightarrow> 'v world \<Rightarrow> ('a \<times> 'v world) option" where
  "call_value f run w = do {
     (x, m) \<leftarrow> run (mach w);
     Some (x, \<lparr>mach = m, trace = trace w @ [Call f]\<rparr>)
   }"

section \<open>The pipeline\<close>

subsection \<open>\<open>simulate\<close> (lines 84-136)\<close>

text \<open>
  Lines 88-106: look up "chirp" and "match", append the two FFT artifacts. The result
  carries the locals that lines 108-109 use: \<open>meta_chirp\<close>, \<open>chirp\<close>, \<open>meta_match\<close>,
  \<open>match\<close>, \<open>chirp_fft\<close>, \<open>match_fft\<close>.
\<close>

record fft_locals =
  meta_chirp :: ptr
  chirp :: ptr
  meta_match :: ptr
  match :: ptr
  chirp_fft :: ptr
  match_fft :: ptr

definition simulate_fft_nodes :: "ptr \<Rightarrow> 'v machine \<Rightarrow> (fft_locals \<times> 'v machine) option" where
  "simulate_fft_nodes store m0 = do {
     p_chirp \<leftarrow> get_matrix (nodes m0) store ''chirp'';
     c \<leftarrow> deref (nodes m0) p_chirp;
     let b_chirp = data c;
     p_match \<leftarrow> get_matrix (nodes m0) store ''match'';
     t \<leftarrow> deref (nodes m0) p_match;
     let b_match = data t;

     (p_chirp_fft, m) \<leftarrow> get_last_node store m0;
     c \<leftarrow> deref (nodes m) p_chirp;
     let (b, m) = malloc_buffer (rows c) m;
     m \<leftarrow> update_matrix p_chirp_fft (\<lambda>node. node\<lparr>data := b\<rparr>) m;
     f \<leftarrow> deref (nodes m) p_chirp_fft;
     let b_chirp_fft = data f;
     c \<leftarrow> deref (nodes m) p_chirp;
     m \<leftarrow> update_matrix p_chirp_fft (\<lambda>node. node\<lparr>rows := rows c\<rparr>) m;
     c \<leftarrow> deref (nodes m) p_chirp;
     m \<leftarrow> update_matrix p_chirp_fft (\<lambda>node. node\<lparr>cols := cols c\<rparr>) m;
     m \<leftarrow> update_matrix p_chirp_fft (\<lambda>node. node\<lparr>name := ''chirp_fft''\<rparr>) m;

     (p_match_fft, m) \<leftarrow> get_last_node store m;
     t \<leftarrow> deref (nodes m) p_match;
     let (b, m) = malloc_buffer (rows t) m;
     m \<leftarrow> update_matrix p_match_fft (\<lambda>node. node\<lparr>data := b\<rparr>) m;
     f \<leftarrow> deref (nodes m) p_match_fft;
     let b_match_fft = data f;
     c \<leftarrow> deref (nodes m) p_chirp;
     m \<leftarrow> update_matrix p_match_fft (\<lambda>node. node\<lparr>rows := rows c\<rparr>) m;
     c \<leftarrow> deref (nodes m) p_chirp;
     m \<leftarrow> update_matrix p_match_fft (\<lambda>node. node\<lparr>cols := cols c\<rparr>) m;
     m \<leftarrow> update_matrix p_match_fft (\<lambda>node. node\<lparr>name := ''match_fft''\<rparr>) m;

     Some (\<lparr>meta_chirp = p_chirp, chirp = b_chirp, meta_match = p_match, match = b_match,
            chirp_fft = b_chirp_fft, match_fft = b_match_fft\<rparr>, m)
   }"

definition simulate :: "'v externals \<Rightarrow> ptr \<Rightarrow> 'v world \<Rightarrow> (int \<times> 'v world) option" where
  "simulate ext store w0 = do {
     let w = enter Simulate w0;
     w \<leftarrow> call Chirp_generator (chirp_generator ext store) w;
     w \<leftarrow> call Chirp_matched_generator (chirp_matched_generator ext store) w;

     (l, m) \<leftarrow> simulate_fft_nodes store (mach w);
     let w = w\<lparr>mach := m\<rparr>;

     c \<leftarrow> deref (nodes (mach w)) (meta_chirp l);
     w \<leftarrow> call (Fft_waveform (rows c) (chirp l) (chirp_fft l))
              (fft_waveform ext (rows c) (chirp l) (chirp_fft l)) w;
     t \<leftarrow> deref (nodes (mach w)) (meta_match l);
     w \<leftarrow> call (Fft_waveform (rows t) (match l) (match_fft l))
              (fft_waveform ext (rows t) (match l) (match_fft l)) w;

     w \<leftarrow> call Pulse_compress_signal (pulse_compress_signal ext store) w;

     (res, w) \<leftarrow> call_value Calculate_compressed_pulse_resolution
                     (calculate_compressed_pulse_resolution ext store) w;
     let w = printf_lf ''Compressed pulse resolution: %lfm\<newline>'' res w;

     w \<leftarrow> call Insert_waveform_in_scene (insert_waveform_in_scene ext store) w;

     w \<leftarrow> call Radar_imager (radar_imager ext store) w;

     Some (0, w)
   }"

subsection \<open>\<open>process_data\<close> (lines 138-197)\<close>

text \<open>
  The loop of lines 143-149 and 179-185:
  \<open>do { ret = scanf("%c", &pc); if(pc == 'y') break; else if(pc == 'n') break; } while(1);\<close>
  The result of \<open>scanf\<close> is stored in \<open>ret\<close> and never looked at.
\<close>

partial_function (option) yn_loop :: "char \<Rightarrow> 'v machine \<Rightarrow> (char \<times> 'v machine) option" where
  "yn_loop pc m =
     (case scanf_char pc m of
        (ret, pc', m') \<Rightarrow>
          if pc' = CHR ''y'' then Some (pc', m')
          else if pc' = CHR ''n'' then Some (pc', m')
          else yn_loop pc' m')"

declare yn_loop.simps [code]

definition process_data :: "'v externals \<Rightarrow> ptr \<Rightarrow> 'v world \<Rightarrow> 'v world option" where
  "process_data ext store w0 = do {
     let w = enter Process_data w0;
     let pc = CHR 0x00;

     let w = printf ''Do you want to employ CinSnow filtering to radar image (y/n)? '' w;
     (pc, m) \<leftarrow> yn_loop pc (mach w);
     let w = w\<lparr>mach := m\<rparr>;
     w \<leftarrow> (if pc = CHR ''y'' then do {
             let w = printf ''Running CinSnow filters ... '' w;
             w \<leftarrow> call Cinsnowfilters (cinsnowfilters ext store) w;
             Some (printf ''done.\<newline>'' w)
           } else Some w);

     let w = printf ''Do you want to enable pulse compression (y/n)? '' w;
     (pc, m) \<leftarrow> yn_loop pc (mach w);
     let w = w\<lparr>mach := m\<rparr>;
     w \<leftarrow> (if pc = CHR ''y'' then do {
             let w = printf ''Pulse-compressing image ... '' w;
             w \<leftarrow> call Pulse_compress_image (pulse_compress_image ext store) w;
             Some (printf ''done.\<newline>'' w)
           } else Some w);

     w \<leftarrow> call Gbp (gbp ext store) w;

     let w = printf ''Generating 2D FFT of GBP image ... '' w;
     w \<leftarrow> call Gbp_fft (gbp_fft ext store) w;
     Some (printf ''done.\<newline>'' w)
   }"

subsection \<open>\<open>build_metadata\<close> (lines 227-235)\<close>

text \<open>The counting loop; \<open>elements\<close> is an \<open>unsigned int\<close>, taken as 32 bits wide.\<close>

partial_function (option) count_loop :: "(ptr \<rightharpoonup> matrix) \<Rightarrow> ptr \<Rightarrow> 32 word \<Rightarrow> 32 word option" where
  "count_loop h ptr elements =
     (if ptr \<noteq> NULL then
        (case h ptr of
           None \<Rightarrow> None
         | Some node \<Rightarrow> count_loop h (next node) (elements + 1))
      else Some elements)"

declare count_loop.simps [code]

definition build_metadata :: "ptr \<Rightarrow> 'v machine \<Rightarrow> 'v machine option" where
  "build_metadata store m0 = do {
     header \<leftarrow> deref (nodes m0) store;
     elements \<leftarrow> count_loop (nodes m0) (next header) 0;
     let (b, m) = malloc_buffer (unat elements) m0;
     update_matrix store (\<lambda>node. node\<lparr>data := b\<rparr>) m
   }"

subsection \<open>\<open>main\<close> (lines 23-70)\<close>

text \<open>
  \<open>free_memory\<close> (lines 72-82) is not modelled: its only call, in line 67, is commented
  out, so no run enters it.
\<close>

text \<open>
  Lines 63-69, which every path through the mode branches that does not return early
  runs into: \<open>build_metadata\<close>, then \<open>write_data\<close>, then \<open>return 0\<close>.
\<close>

definition finish :: "'v externals \<Rightarrow> ptr \<Rightarrow> 'v world \<Rightarrow> (int \<times> 'v world) option" where
  "finish ext store w0 = do {
     w \<leftarrow> call Build_metadata (build_metadata store) w0;
     (ret, w) \<leftarrow> call_value Write_data (write_data ext store) w;
     Some (0, w)
   }"

text \<open>
  \<open>variables.mode = getchar()\<close> keeps the value \<open>getchar\<close> returned; whether the field is
  a \<open>char\<close> or an \<open>int\<close>, it compares equal to \<open>'p'\<close> (or \<open>'s'\<close>) exactly when that byte
  was read. The result is the exit status together with the final state and trace.
\<close>

definition main :: "'v externals \<Rightarrow> 'v machine \<Rightarrow> (int \<times> 'v world) option" where
  "main ext m0 = do {
     let (store, m) = malloc_matrix m0;
     let m = memset_matrix store m;
     m \<leftarrow> update_matrix store (\<lambda>node. node\<lparr>name := ''metadata''\<rparr>) m;
     let w = \<lparr>mach = m, trace = []\<rparr>;

     let w = printf ''Do you wish to simulate or process radar data? (s/p): '' w;
     let (c, m) = getchar (mach w);
     let w = w\<lparr>mach := m\<lparr>variables := (variables m)\<lparr>mode := c\<rparr>\<rparr>\<rparr>;
     if mode (variables (mach w)) = of_char CHR ''p'' then do {
       let w = printf ''Please enter file name of raw data: '' w;
       let (ret, m) = scanf_string (mach w);
       let w = w\<lparr>mach := m\<rparr>;
       if ret = EOF then
         Some (0, printf ''Invalid input detected, closing.\<newline>'' w)
       else do {
         (ok, w) \<leftarrow> call_value Read_radar_file (read_radar_file ext store) w;
         if ok = 0 then
           Some (0, printf ''Failed to read radar data, closing.\<newline>'' w)
         else do {
           w \<leftarrow> process_data ext store w;
           finish ext store w
         }
       }
     }
     else if mode (variables (mach w)) = of_char CHR ''s'' then do {
       (ret, w) \<leftarrow> simulate ext store w;
       if ret = - 1 then Some (0, w)
       else do {
         w \<leftarrow> process_data ext store w;
         finish ext store w
       }
     }
     else Some (0, printf ''Mode not recognized - exiting.\<newline>'' w)
   }"

text \<open>
  The state in which \<open>main\<close> starts: nothing allocated, \<open>inp\<close> waiting on standard
  input, and the uninitialised local \<open>variables\<close> holding some \<open>v\<close>.
\<close>

definition boot :: "string \<Rightarrow> 'v radar_variables \<Rightarrow> 'v machine" where
  "boot inp v = \<lparr>nodes = Map.empty, bufs = Map.empty, brk = 1, stdin = inp, variables = v\<rparr>"

section \<open>Points of a run and auxiliary notions\<close>

text \<open>The store as lines 25-27 of \<open>main\<close> set it up: the header alone, at address 1.\<close>

definition header_store :: "ptr \<rightharpoonup> matrix" where
  "header_store = [1 \<mapsto> zero_matrix\<lparr>name := ''metadata''\<rparr>]"

text \<open>
  The world of \<open>main\<close> right after line 30, when the byte \<open>c\<close> was read at the mode
  prompt and \<open>rest\<close> is the input still unread.
\<close>

definition after_mode :: "char \<Rightarrow> string \<Rightarrow> 'v radar_variables \<Rightarrow> 'v world" where
  "after_mode c rest v =
     \<lparr>mach = \<lparr>nodes = header_store, bufs = Map.empty, brk = 2, stdin = rest,
              variables = v\<lparr>mode := of_char c\<rparr>\<rparr>,
      trace = [Printf ''Do you wish to simulate or process radar data? (s/p): '']\<rparr>"

text \<open>
  The world of \<open>main\<close> in mode \<open>'p'\<close> right after line 34, when \<open>scanf\<close> found a file
  name in \<open>rest\<close>, the input after the mode byte.
\<close>

definition after_filename :: "string \<Rightarrow> 'v radar_variables \<Rightarrow> 'v world" where
  "after_filename rest v =
     \<lparr>mach = \<lparr>nodes = header_store, bufs = Map.empty, brk = 2,
              stdin = dropWhile (\<lambda>c. \<not> isspace c) (dropWhile isspace rest),
              variables = v\<lparr>mode := of_char CHR ''p'',
                radar_data_filename :=
                  takeWhile (\<lambda>c. \<not> isspace c) (dropWhile isspace rest)\<rparr>\<rparr>,
      trace = [Printf ''Do you wish to simulate or process radar data? (s/p): '',
               Printf ''Please enter file name of raw data: '']\<rparr>"

text \<open>
  \<open>unused m\<close>: the allocation mark is not null and nothing is stored at or above it, so
  every address \<open>malloc\<close> hands out from now on is fresh.
\<close>

definition unused :: "'v machine \<Rightarrow> bool" where
  "unused m \<longleftrightarrow> brk m \<noteq> NULL \<and> (\<forall>a. brk m \<le> a \<longrightarrow> nodes m a = None \<and> bufs m a = None)"

text \<open>
  The shape that lines 94-99 and lines 101-106 of \<open>simulate\<close> share: append a struct,
  give it a buffer of as many slots as \<open>*p_len\<close> has rows, copy the dimensions of
  \<open>*p_dims\<close>, and name it. The result is the buffer just allocated.
  \<open>simulate_fft_nodes\<close> is shown below to be two such steps
  (lemma \<open>simulate_fft_nodes_steps\<close>).
\<close>

definition fft_node_step ::
  "ptr \<Rightarrow> ptr \<Rightarrow> ptr \<Rightarrow> string \<Rightarrow> 'v machine \<Rightarrow> (ptr \<times> 'v machine) option" where
  "fft_node_step store p_len p_dims nm m0 = do {
     (p, m) \<leftarrow> get_last_node store m0;
     x \<leftarrow> deref (nodes m) p_len;
     let (b, m) = malloc_buffer (rows x) m;
     m \<leftarrow> update_matrix p (\<lambda>node. node\<lparr>data := b\<rparr>) m;
     f \<leftarrow> deref (nodes m) p;
     d \<leftarrow> deref (nodes m) p_dims;
     m \<leftarrow> update_matrix p (\<lambda>node. node\<lparr>rows := rows d\<rparr>) m;
     d \<leftarrow> deref (nodes m) p_dims;
     m \<leftarrow> update_matrix p (\<lambda>node. node\<lparr>cols := cols d\<rparr>) m;
     m \<leftarrow> update_matrix p (\<lambda>node. node\<lparr>name := nm\<rparr>) m;
     Some (data f, m)
   }"

text \<open>
  The state in which lines 88-106 leave \<open>m\<close> when the last struct of the store is at
  \<open>tail\<close> and the lookups have found the structs \<open>c\<close> ("chirp") and \<open>t\<close> ("match"):
  two structs and two buffers more (lemma \<open>simulate_fft_nodes_returns\<close>).
\<close>

definition with_fft_nodes :: "ptr \<Rightarrow> matrix \<Rightarrow> matrix \<Rightarrow> 'v machine \<Rightarrow> 'v machine" where
  "with_fft_nodes tail c t m =
     m\<lparr>nodes := (nodes m)
          (tail := map_option (\<lambda>node. node\<lparr>next := brk m\<rparr>) (nodes m tail),
           brk m \<mapsto> \<lparr>name = ''chirp_fft'', rows = rows c, cols = cols c,
                     data = brk m + 1, next = brk m + 2\<rparr>,
           brk m + 2 \<mapsto> \<lparr>name = ''match_fft'', rows = rows c, cols = cols c,
                         data = brk m + 3, next = NULL\<rparr>),
       bufs := (bufs m)(brk m + 1 \<mapsto> replicate (rows c) None,
                        brk m + 3 \<mapsto> replicate (rows t) None),
       brk := brk m + 4\<rparr>"

text \<open>
  The shape that lines 142-154 and lines 178-190 of \<open>process_data\<close> share: print the
  prompt, loop until \<open>pc\<close> is \<open>'y'\<close> or \<open>'n'\<close>, and run the stage when it is \<open>'y'\<close>.
  \<open>process_data\<close> is shown below to be two such steps followed by the two mandatory
  stages (lemma \<open>process_data_steps\<close>).
\<close>

definition gated_step ::
  "string \<Rightarrow> string \<Rightarrow> func \<Rightarrow> ('v machine \<Rightarrow> 'v machine option) \<Rightarrow> char \<Rightarrow> 'v world
     \<Rightarrow> (char \<times> 'v world) option" where
  "gated_step prompt running f run pc0 w0 = do {
     let w = printf prompt w0;
     (pc, m) \<leftarrow> yn_loop pc0 (mach w);
     let w = w\<lparr>mach := m\<rparr>;
     w \<leftarrow> (if pc = CHR ''y'' then do {
             let w = printf running w;
             w \<leftarrow> call f run w;
             Some (printf ''done.\<newline>'' w)
           } else Some w);
     Some (pc, w)
   }"

section \<open>Sample stores and collaborators\<close>

text \<open>
  Concrete inputs on which the theorems below are exercised. \<open>twin_store\<close> is a store
  in which two artifacts share the name "chirp".
\<close>

definition twin_store :: "ptr \<rightharpoonup> matrix" where
  "twin_store =
     [1 \<mapsto> \<lparr>name = ''metadata'', rows = 0, cols = 0, data = NULL, next = 2\<rparr>,
      2 \<mapsto> \<lparr>name = ''chirp'', rows = 4, cols = 1, data = 7, next = 3\<rparr>,
      3 \<mapsto> \<lparr>name = ''chirp'', rows = 2, cols = 1, data = 8, next = NULL\<rparr>]"

text \<open>A machine whose store is \<open>twin_store\<close>, with address 4 the next to be allocated.\<close>

definition twin_machine :: "unit machine" where
  "twin_machine =
     \<lparr>nodes = twin_store, bufs = Map.empty, brk = 4, stdin = [],
      variables = \<lparr>mode = 0, radar_data_filename = [], parameters = ()\<rparr>\<rparr>"

text \<open>Some content for the \<open>variables\<close> local.\<close>

definition no_variables :: "unit radar_variables" where
  "no_variables = \<lparr>mode = 0, radar_data_filename = [], parameters = ()\<rparr>"

text \<open>
  Sample collaborators. \<open>sample_generator nm r c\<close> publishes an artifact named \<open>nm\<close>
  with \<open>r\<close> rows, \<open>c\<close> columns and a buffer of \<open>r * c\<close> slots at the tail of the store;
  \<open>idle\<close> returns without changing anything.
\<close>

definition sample_generator :: "string \<Rightarrow> nat \<Rightarrow> nat \<Rightarrow> ptr \<Rightarrow> unit machine \<Rightarrow> unit machine option" where
  "sample_generator nm r c store m0 = do {
     (a, m) \<leftarrow> get_last_node store m0;
     let (b, m) = malloc_buffer (r * c) m;
     update_matrix a (\<lambda>node. node\<lparr>name := nm, rows := r, cols := c, data := b\<rparr>) m
   }"

definition idle :: "ptr \<Rightarrow> unit machine \<Rightarrow> unit machine option" where
  "idle store m = Some m"

definition sample_externals :: "unit externals" where
  "sample_externals =
     \<lparr>read_radar_file = (\<lambda>store m. Some (1, m)),
      write_data = (\<lambda>store m. Some (0, m)),
      chirp_generator = sample_generator ''chirp'' 4 1,
      chirp_matched_generator = sample_generator ''match'' 4 1,
      fft_waveform = (\<lambda>n src dst m. Some m),
      pulse_compress_signal = idle,
      calculate_compressed_pulse_resolution = (\<lambda>store m. Some (3 / 2, m)),
      insert_waveform_in_scene = idle,
      radar_imager = idle,
      cinsnowfilters = idle,
      pulse_compress_image = idle,
      gbp = idle,
      gbp_fft = idle\<rparr>"

text \<open>Collaborators whose file reader reports failure and touches nothing.\<close>

definition unreadable_externals :: "unit externals" where
  "unreadable_externals = sample_externals\<lparr>read_radar_file := (\<lambda>store m. Some (0, m))\<rparr>"

text \<open>
  The state in which \<open>simulate\<close> reaches line 88 when the generators have published
  a 4-sample chirp and a \<open>k\<close>-sample matched filter, both column vectors, and no input
  is left (lemma \<open>sample_generators_run\<close> has it for any input that is left).
\<close>

definition generated_machine :: "nat \<Rightarrow> unit machine" where
  "generated_machine k =
     \<lparr>nodes =
        [1 \<mapsto> \<lparr>name = ''metadata'', rows = 0, cols = 0, data = NULL, next = 2\<rparr>,
         2 \<mapsto> \<lparr>name = ''chirp'', rows = 4, cols = 1, data = 3, next = 4\<rparr>,
         4 \<mapsto> \<lparr>name = ''match'', rows = k, cols = 1, data = 5, next = NULL\<rparr>],
      bufs = [3 \<mapsto> replicate 4 None, 5 \<mapsto> replicate k None],
      brk = 6, stdin = [], variables = no_variables\<lparr>mode := 115\<rparr>\<rparr>"

section \<open>Properties of the store\<close>

lemma chain_same_start: "chain h p as \<Longrightarrow> chain h p bs \<Longrightarrow> as = bs"
proof (induction as arbitrary: p bs)
  case Nil
  then show ?case by (cases bs) auto
next
  case (Cons a as)
  then show ?case by (cases bs) (auto split: option.splits)
qed

lemma chain_suffix: "chain h p (xs @ a # ys) \<Longrightarrow> chain h a (a # ys)"
proof (induction xs arbitrary: p)
  case Nil
  then show ?case by simp
next
  case (Cons x xs)
  then obtain node where "h x = Some node" and "chain h (next node) (xs @ a # ys)"
    by (auto split: option.splits)
  then show ?case using Cons.IH by blast
qed

lemma chain_head_not_in_tail:
  assumes "h a = Some node" and "chain h (next node) as"
  shows "a \<notin> set as"
proof
  assume "a \<in> set as"
  then obtain xs ys where split: "as = xs @ a # ys"
    by (auto simp: in_set_conv_decomp)
  with assms(2) have "chain h a (a # ys)"
    using chain_suffix by blast
  with assms(1) have "chain h (next node) ys" by simp
  with assms(2) have "as = ys" by (rule chain_same_start)
  with split show False by simp
qed

lemma chain_distinct: "chain h p as \<Longrightarrow> distinct as"
  by (induction as arbitrary: p) (auto split: option.splits dest: chain_head_not_in_tail)

lemma chain_allocated: "chain h p as \<Longrightarrow> a \<in> set as \<Longrightarrow> a \<noteq> NULL \<and> h a \<noteq> None"
  by (induction as arbitrary: p) (auto split: option.splits)

lemma chain_nonempty: "chain h p as \<Longrightarrow> p \<noteq> NULL \<Longrightarrow> as \<noteq> []"
  by (cases as) auto

lemma chain_last_node:
  "chain h p as \<Longrightarrow> as \<noteq> [] \<Longrightarrow> \<exists>node. h (last as) = Some node \<and> next node = NULL"
proof (induction as arbitrary: p)
  case Nil
  then show ?case by simp
next
  case (Cons a as)
  then obtain node where node: "h a = Some node" "chain h (next node) as"
    by (auto split: option.splits)
  show ?case
  proof (cases "as = []")
    case True
    with node show ?thesis by simp
  next
    case False
    with node Cons.IH show ?thesis by simp
  qed
qed

lemma last_node_loop_chain:
  "chain h p as \<Longrightarrow> as \<noteq> [] \<Longrightarrow> last_node_loop h p = Some (last as)"
proof (induction as arbitrary: p)
  case Nil
  then show ?case by simp
next
  case (Cons a as)
  then obtain node where node: "p = a" "h a = Some node" "chain h (next node) as"
    by (auto split: option.splits)
  show ?case
  proof (cases "as = []")
    case True
    with node show ?thesis
      by (subst last_node_loop.simps) simp
  next
    case False
    with node(3) have "next node \<noteq> NULL"
      by (cases as) auto
    with node False Cons.IH [of "next node"] show ?thesis
      by (subst last_node_loop.simps) simp
  qed
qed

lemma chain_append_node:
  assumes "chain h p as" and "as \<noteq> []" and "h (last as) = Some node"
    and "a \<notin> set as" and "a \<noteq> NULL" and "next z = NULL"
  shows "chain (h(last as \<mapsto> node\<lparr>next := a\<rparr>, a \<mapsto> z)) p (as @ [a])"
  using assms
proof (induction as arbitrary: p)
  case Nil
  then show ?case by simp
next
  case (Cons x xs)
  then obtain nx where nx: "p = x" "x \<noteq> NULL" "h x = Some nx" "chain h (next nx) xs"
    by (auto split: option.splits)
  from Cons.prems have "x \<noteq> a" by auto
  show ?case
  proof (cases "xs = []")
    case True
    with nx Cons.prems \<open>x \<noteq> a\<close> show ?thesis by simp
  next
    case False
    define h' where "h' = h(last xs \<mapsto> node\<lparr>next := a\<rparr>, a \<mapsto> z)"
    from nx have "x \<notin> set xs" by (rule_tac chain_head_not_in_tail)
    with False have "x \<noteq> last xs" by auto
    with nx(3) \<open>x \<noteq> a\<close> have lookup: "h' x = Some nx"
      by (simp add: h'_def)
    from Cons.prems False have "h (last xs) = Some node" and "a \<notin> set xs"
      by simp_all
    with False Cons.prems(5,6) have "chain h' (next nx) (xs @ [a])"
      unfolding h'_def by (rule_tac Cons.IH [OF nx(4)])
    with nx(1,2) lookup have "chain h' p ((x # xs) @ [a])"
      by simp
    moreover from False have "last (x # xs) = last xs" by simp
    ultimately show ?thesis
      by (simp only: h'_def)
  qed
qed

lemma get_last_node_chain:
  assumes "chain (nodes m) store as" and "store \<noteq> NULL"
    and "brk m \<noteq> NULL" and "nodes m (brk m) = None"
  shows "get_last_node store m =
         Some (brk m,
               m\<lparr>nodes := (nodes m)(last as \<mapsto> (the (nodes m (last as)))\<lparr>next := brk m\<rparr>,
                                     brk m \<mapsto> zero_matrix),
                 brk := Suc (brk m)\<rparr>)"
proof -
  from assms have ne: "as \<noteq> []" by (simp add: chain_nonempty)
  with assms obtain node where node: "nodes m (last as) = Some node"
    using chain_last_node by blast
  from ne have "last as \<in> set as" by simp
  with assms(4) node have differ: "last as \<noteq> brk m" by auto
  from assms ne have "last_node_loop (nodes m) store = Some (last as)"
    by (simp add: last_node_loop_chain)
  with assms(2) node differ show ?thesis
    by (simp add: get_last_node_def malloc_matrix_def memset_matrix_def)
qed

lemma named_Some: "h a = Some node \<Longrightarrow> named h nm a \<longleftrightarrow> nm = name node"
  by (auto simp: named_def)

lemma get_matrix_loop_chain:
  "chain h p as \<Longrightarrow>
   get_matrix_loop h nm p = Some (case find (named h nm) as of None \<Rightarrow> NULL | Some a \<Rightarrow> a)"
proof (induction as arbitrary: p)
  case Nil
  then show ?case by (subst get_matrix_loop.simps) simp
next
  case (Cons a as)
  then obtain node where node: "p = a" "a \<noteq> NULL" "h a = Some node" "chain h (next node) as"
    by (auto split: option.splits)
  show ?case
  proof (cases "nm = name node")
    case True
    with node show ?thesis
      by (subst get_matrix_loop.simps) (simp add: named_Some)
  next
    case False
    with node Cons.IH [of "next node"] show ?thesis
      by (subst get_matrix_loop.simps) (simp add: named_Some)
  qed
qed

lemma get_matrix_chain:
  assumes "chain h store as"
  shows "get_matrix h store nm =
         Some (case find (named h nm) as of None \<Rightarrow> NULL | Some a \<Rightarrow> a)"
proof (cases "store = NULL")
  case True
  with assms have "as = []" by (cases as) auto
  with True show ?thesis by (simp add: get_matrix_def)
next
  case False
  with assms show ?thesis by (simp add: get_matrix_def get_matrix_loop_chain)
qed

lemma find_first_index:
  "find P xs = Some a \<Longrightarrow> \<exists>i<length xs. xs ! i = a \<and> P a \<and> (\<forall>j<i. \<not> P (xs ! j))"
  by (auto simp: find_Some_iff)

text \<open>
  C1. On every well-formed store, \<open>get_matrix\<close> returns; the result is the first
  address in chain order whose struct carries the name asked for, and it is \<open>NULL\<close>
  exactly when no struct of the chain carries that name. A null store pointer gives
  \<open>NULL\<close>. When several structs share the name, the earliest in the chain (the first
  created, since the chain only grows at its tail) is the one returned.
\<close>

theorem get_matrix_first_match:
  assumes "chain h store as"
  shows "\<exists>r. get_matrix h store nm = Some r
           \<and> (r = NULL \<longleftrightarrow> (\<forall>a \<in> set as. \<not> named h nm a))
           \<and> (r \<noteq> NULL \<longrightarrow>
                (\<exists>i < length as. as ! i = r \<and> named h nm r \<and> (\<forall>j < i. \<not> named h nm (as ! j))))
           \<and> (store = NULL \<longrightarrow> r = NULL)"
proof (cases "find (named h nm) as")
  case None
  with assms have "get_matrix h store nm = Some NULL"
    by (simp add: get_matrix_chain)
  moreover from None have "\<forall>a \<in> set as. \<not> named h nm a"
    by (simp add: find_None_iff)
  ultimately show ?thesis by simp
next
  case (Some r)
  from find_first_index [OF Some]
  obtain i where i: "i < length as" "as ! i = r" "named h nm r"
      "\<forall>j<i. \<not> named h nm (as ! j)"
    by blast
  from i(1,2) have mem: "r \<in> set as" by auto
  with assms have nonnull: "r \<noteq> NULL"
    by (auto dest: chain_allocated)
  from assms mem have "store \<noteq> NULL"
    by (cases as) auto
  from assms Some have res: "get_matrix h store nm = Some r"
    by (simp add: get_matrix_chain)
  have "\<exists>i < length as. as ! i = r \<and> named h nm r \<and> (\<forall>j < i. \<not> named h nm (as ! j))"
    using i by blast
  moreover have "\<not> (\<forall>a \<in> set as. \<not> named h nm a)"
    using mem i(3) by blast
  ultimately show ?thesis
    using res nonnull \<open>store \<noteq> NULL\<close> by simp
qed

theorem get_matrix_first_match_witness:
  "chain twin_store 1 [1, 2, 3]
   \<and> get_matrix twin_store 1 ''chirp'' = Some 2
   \<and> get_matrix twin_store 1 ''match'' = Some NULL"
proof -
  have c: "chain twin_store 1 [1, 2, 3]"
    by (simp add: twin_store_def)
  have n: "\<not> named twin_store ''chirp'' 1" "named twin_store ''chirp'' 2"
    "\<forall>a \<in> set [1, 2, 3]. \<not> named twin_store ''match'' a"
    by (simp_all add: twin_store_def named_def)
  obtain r where r: "get_matrix twin_store 1 ''chirp'' = Some r"
    "r = NULL \<longleftrightarrow> (\<forall>a \<in> set [1, 2, 3]. \<not> named twin_store ''chirp'' a)"
    "r \<noteq> NULL \<longrightarrow> (\<exists>i < length [1, 2, 3::nat]. [1, 2, 3] ! i = r \<and> named twin_store ''chirp'' r
        \<and> (\<forall>j < i. \<not> named twin_store ''chirp'' ([1, 2, 3] ! j)))"
    using get_matrix_first_match [OF c, of "''chirp''"]
    by (elim exE conjE) (rule that)
  from r(2) n(2) have "r \<noteq> NULL" by simp
  with r(3) have "\<exists>i < length [1, 2, 3::nat]. [1, 2, 3] ! i = r \<and> named twin_store ''chirp'' r
        \<and> (\<forall>j < i. \<not> named twin_store ''chirp'' ([1, 2, 3] ! j))"
    by (rule mp)
  then obtain i where i: "i < length [1, 2, 3::nat]" "[1, 2, 3] ! i = r"
    "named twin_store ''chirp'' r"
    "\<forall>j < i. \<not> named twin_store ''chirp'' ([1, 2, 3] ! j)"
    by (elim exE conjE) (rule that)
  have "i \<noteq> 2"
  proof
    assume "i = 2"
    with i(4) have "\<not> named twin_store ''chirp'' ([1, 2, 3] ! 1)"
      by (elim allE [where x = 1]) simp
    with n(2) show False by simp
  qed
  moreover have "i \<noteq> 0"
  proof
    assume "i = 0"
    with i(2) have "r = 1" by simp
    with i(3) n(1) show False by simp
  qed
  ultimately have "i = 1" using i(1) by simp
  with i(2) have "r = 2" by simp
  obtain q where q: "get_matrix twin_store 1 ''match'' = Some q"
    "q = NULL \<longleftrightarrow> (\<forall>a \<in> set [1, 2, 3]. \<not> named twin_store ''match'' a)"
    using get_matrix_first_match [OF c, of "''match''"]
    by (elim exE conjE) (rule that)
  from q(2) n(3) have "q = NULL" by simp
  with c r(1) q(1) \<open>r = 2\<close> show ?thesis by simp
qed

lemma chain_update_keeping_next:
  "h a = Some node \<Longrightarrow> next node' = next node \<Longrightarrow> chain (h(a \<mapsto> node')) p as = chain h p as"
  by (induction as arbitrary: p) (auto split: option.splits)

text \<open>
  C10. On a well-formed, non-null store, with \<open>malloc\<close> handing out a non-null address
  that holds no struct yet, \<open>get_last_node\<close> returns that address; the chain is the old
  chain followed by the new address; the new struct is all zero; every struct of the old
  chain keeps its name, rows, cols and data, and its \<open>next\<close> as well unless it was the
  tail, whose \<open>next\<close> now is the new address; nothing else in the machine changes.
\<close>

theorem get_last_node_appends:
  assumes "chain (nodes m) store as" and "store \<noteq> NULL"
    and "brk m \<noteq> NULL" and "nodes m (brk m) = None"
  shows "\<exists>m'. get_last_node store m = Some (brk m, m')
           \<and> brk m \<notin> set as
           \<and> chain (nodes m') store (as @ [brk m])
           \<and> nodes m' (brk m) = Some zero_matrix
           \<and> (\<forall>a \<in> set as. \<exists>node. nodes m a = Some node
                  \<and> nodes m' a = Some (node\<lparr>next := if a = last as then brk m else next node\<rparr>))
           \<and> (\<forall>a. a \<notin> set as \<longrightarrow> a \<noteq> brk m \<longrightarrow> nodes m' a = nodes m a)
           \<and> bufs m' = bufs m \<and> stdin m' = stdin m \<and> variables m' = variables m"
proof -
  define tl_node where "tl_node = the (nodes m (last as))"
  define m' where
    "m' = m\<lparr>nodes := (nodes m)(last as \<mapsto> tl_node\<lparr>next := brk m\<rparr>, brk m \<mapsto> zero_matrix),
            brk := Suc (brk m)\<rparr>"
  from assms have ret: "get_last_node store m = Some (brk m, m')"
    unfolding m'_def tl_node_def by (rule get_last_node_chain)
  from assms have ne: "as \<noteq> []" by (simp add: chain_nonempty)
  with assms(1) have tl: "nodes m (last as) = Some tl_node"
    using chain_last_node [of "nodes m" store as] by (auto simp: tl_node_def)
  from assms(1,4) have new: "brk m \<notin> set as"
    using chain_allocated [of "nodes m" store as "brk m"] by auto
  have "next zero_matrix = NULL" by (simp add: zero_matrix_def)
  with assms(1,3) ne tl new have "chain (nodes m') store (as @ [brk m])"
    by (simp add: m'_def chain_append_node)
  moreover have "nodes m' (brk m) = Some zero_matrix"
    by (simp add: m'_def)
  moreover have "\<forall>a \<in> set as. \<exists>node. nodes m a = Some node
      \<and> nodes m' a = Some (node\<lparr>next := if a = last as then brk m else next node\<rparr>)"
  proof
    fix a assume "a \<in> set as"
    with assms(1) new obtain node where "nodes m a = Some node" and "a \<noteq> brk m"
      using chain_allocated [of "nodes m" store as a] by auto
    with tl show "\<exists>node. nodes m a = Some node
      \<and> nodes m' a = Some (node\<lparr>next := if a = last as then brk m else next node\<rparr>)"
      by (auto simp: m'_def)
  qed
  moreover from ne have "\<forall>a. a \<notin> set as \<longrightarrow> a \<noteq> brk m \<longrightarrow> nodes m' a = nodes m a"
    by (auto simp: m'_def)
  moreover have "bufs m' = bufs m \<and> stdin m' = stdin m \<and> variables m' = variables m"
    by (simp add: m'_def)
  ultimately show ?thesis using ret new by blast
qed

theorem get_last_node_appends_witness:
  "chain (nodes twin_machine) 1 [1, 2, 3] \<and> brk twin_machine = 4
   \<and> (\<exists>m'. get_last_node 1 twin_machine = Some (4, m')
          \<and> chain (nodes m') 1 [1, 2, 3, 4]
          \<and> nodes m' 4 = Some zero_matrix
          \<and> nodes m' 3 = Some \<lparr>name = ''chirp'', rows = 2, cols = 1, data = 8, next = 4\<rparr>
          \<and> nodes m' 2 = nodes twin_machine 2)"
proof -
  have c: "chain (nodes twin_machine) 1 [1, 2, 3]"
    by (simp add: twin_machine_def twin_store_def)
  have b: "brk twin_machine = 4" "brk twin_machine \<noteq> NULL"
    "nodes twin_machine (brk twin_machine) = None" "(1::ptr) \<noteq> NULL"
    by (simp_all add: twin_machine_def twin_store_def)
  from get_last_node_appends [OF c b(4) b(2) b(3)]
  obtain m' where m': "get_last_node 1 twin_machine = Some (brk twin_machine, m')"
    "chain (nodes m') 1 ([1, 2, 3] @ [brk twin_machine])"
    "nodes m' (brk twin_machine) = Some zero_matrix"
    "\<forall>a \<in> set [1, 2, 3]. \<exists>node. nodes twin_machine a = Some node
        \<and> nodes m' a = Some (node\<lparr>next := if a = last [1, 2, 3] then brk twin_machine else next node\<rparr>)"
    by (elim exE conjE) (rule that)
  from m'(4) have "nodes m' 3 = Some \<lparr>name = ''chirp'', rows = 2, cols = 1, data = 8, next = 4\<rparr>"
    and "nodes m' 2 = nodes twin_machine 2"
    by (simp_all add: twin_machine_def twin_store_def)
  with c b(1) m'(1,2,3) show ?thesis by simp
qed

lemma find_append_none:
  "\<forall>x \<in> set xs. \<not> P x \<Longrightarrow> find P (xs @ ys) = find P ys"
  by (induction xs) auto

text \<open>
  C2. On a well-formed, non-null store in which no artifact carries the name \<open>n\<close>,
  \<open>get_last_node\<close> followed by \<open>strcpy(new->name, n)\<close> returns, and a lookup of \<open>n\<close>
  afterwards yields exactly the address \<open>get_last_node\<close> returned, which is not null
  and not one of the old addresses. (That the old names are pairwise distinct is not
  needed.)
\<close>

theorem append_then_lookup:
  assumes "chain (nodes m) store as" and "store \<noteq> NULL"
    and "brk m \<noteq> NULL" and "nodes m (brk m) = None"
    and "\<forall>a \<in> set as. \<not> named (nodes m) n a"
  shows "\<exists>a m1 m2. get_last_node store m = Some (a, m1)
           \<and> update_matrix a (\<lambda>node. node\<lparr>name := n\<rparr>) m1 = Some m2
           \<and> get_matrix (nodes m2) store n = Some a
           \<and> a \<noteq> NULL \<and> a \<notin> set as
           \<and> chain (nodes m2) store (as @ [a])"
proof -
  define a where "a = brk m"
  from get_last_node_chain [OF assms(1-4)]
  obtain m1 where m1: "get_last_node store m = Some (a, m1)"
    and nodes1: "nodes m1 = (nodes m)(last as \<mapsto> (the (nodes m (last as)))\<lparr>next := a\<rparr>,
                                     a \<mapsto> zero_matrix)"
    by (simp add: a_def)
  define m2 where "m2 = m1\<lparr>nodes := (nodes m1)(a \<mapsto> zero_matrix\<lparr>name := n\<rparr>)\<rparr>"
  from assms(3) have "a \<noteq> NULL" by (simp add: a_def)
  with nodes1 have upd: "update_matrix a (\<lambda>node. node\<lparr>name := n\<rparr>) m1 = Some m2"
    by (simp add: update_matrix_def deref_def m2_def)
  from assms have ne: "as \<noteq> []" by (simp add: chain_nonempty)
  with assms(1) obtain tl_node where tl: "nodes m (last as) = Some tl_node"
    using chain_last_node by blast
  from assms(1,4) have new: "a \<notin> set as"
    using chain_allocated [of "nodes m" store as a] by (auto simp: a_def)
  have "chain (nodes m1) store (as @ [a])"
    unfolding nodes1 using assms(1) ne tl new \<open>a \<noteq> NULL\<close>
    by (simp add: chain_append_node zero_matrix_def)
  moreover have "nodes m1 a = Some zero_matrix"
    by (simp add: nodes1)
  ultimately have c2: "chain (nodes m2) store (as @ [a])"
    by (simp add: m2_def chain_update_keeping_next)
  have old: "\<forall>x \<in> set as. \<not> named (nodes m2) n x"
  proof
    fix x assume x: "x \<in> set as"
    with new have "x \<noteq> a" by auto
    from x assms(1) obtain node where node: "nodes m x = Some node"
      using chain_allocated [of "nodes m" store as x] by auto
    with x assms(5) have "name node \<noteq> n"
      by (auto simp: named_def)
    with node tl \<open>x \<noteq> a\<close> show "\<not> named (nodes m2) n x"
      by (auto simp: named_def m2_def nodes1)
  qed
  have "named (nodes m2) n a"
    by (simp add: named_def m2_def)
  with old have "find (named (nodes m2) n) (as @ [a]) = Some a"
    by (simp add: find_append_none)
  with c2 have "get_matrix (nodes m2) store n = Some a"
    by (simp add: get_matrix_chain)
  with m1 upd \<open>a \<noteq> NULL\<close> new c2 show ?thesis by blast
qed

theorem append_then_lookup_witness:
  "chain (nodes twin_machine) 1 [1, 2, 3]
   \<and> \<not> named (nodes twin_machine) ''match'' 1
   \<and> \<not> named (nodes twin_machine) ''match'' 2
   \<and> \<not> named (nodes twin_machine) ''match'' 3
   \<and> (\<exists>m1 m2. get_last_node 1 twin_machine = Some (4, m1)
          \<and> update_matrix 4 (\<lambda>node. node\<lparr>name := ''match''\<rparr>) m1 = Some m2
          \<and> get_matrix (nodes m2) 1 ''match'' = Some 4)"
proof -
  have c: "chain (nodes twin_machine) 1 [1, 2, 3]"
    by (simp add: twin_machine_def twin_store_def)
  have b: "(1::ptr) \<noteq> NULL" "brk twin_machine \<noteq> NULL"
    "nodes twin_machine (brk twin_machine) = None"
    "\<forall>a \<in> set [1, 2, 3]. \<not> named (nodes twin_machine) ''match'' a"
    by (simp_all add: twin_machine_def twin_store_def named_def)
  from append_then_lookup [OF c b]
  obtain a m1 m2 where r: "get_last_node 1 twin_machine = Some (a, m1)"
    "update_matrix a (\<lambda>node. node\<lparr>name := ''match''\<rparr>) m1 = Some m2"
    "get_matrix (nodes m2) 1 ''match'' = Some a"
    by (elim exE conjE) (rule that)
  have "fst (the (get_last_node 1 twin_machine)) = brk twin_machine"
    by (subst get_last_node_chain [OF c b(1,2,3)]) simp
  with r(1) have "a = 4" by (simp add: twin_machine_def)
  with c b(4) r show ?thesis by simp
qed

section \<open>The yes/no prompts\<close>

lemma yn_loop_decides:
  assumes "stdin m = pre @ c # rest"
    and "\<forall>x \<in> set pre. x \<noteq> CHR ''y'' \<and> x \<noteq> CHR ''n''"
    and "c = CHR ''y'' \<or> c = CHR ''n''"
  shows "yn_loop pc m = Some (c, m\<lparr>stdin := rest\<rparr>)"
  using assms
proof (induction pre arbitrary: pc m)
  case Nil
  then show ?case
    by (subst yn_loop.simps) (auto simp: scanf_char_def)
next
  case (Cons x pre)
  from Cons.prems have x: "x \<noteq> CHR ''y''" "x \<noteq> CHR ''n''" by simp_all
  from Cons.prems have "yn_loop x (m\<lparr>stdin := pre @ c # rest\<rparr>) = Some (c, m\<lparr>stdin := pre @ c # rest\<rparr>\<lparr>stdin := rest\<rparr>)"
    by (intro Cons.IH) simp_all
  with Cons.prems(1) x show ?case
    by (subst yn_loop.simps) (simp add: scanf_char_def)
qed

lemma yn_loop_answer:
  assumes "yn_loop pc m = Some r"
  shows "fst r = CHR ''y'' \<or> fst r = CHR ''n''"
proof (rule yn_loop.raw_induct [where P = "\<lambda>pc m r. fst r = CHR ''y'' \<or> fst r = CHR ''n''", OF _ assms])
  fix f :: "char \<Rightarrow> 'a machine \<Rightarrow> (char \<times> 'a machine) option" and pc m r
  assume IH: "\<And>pc m r. f pc m = Some r \<Longrightarrow> fst r = CHR ''y'' \<or> fst r = CHR ''n''"
    and body: "(case scanf_char pc m of
        (ret, pc', m') \<Rightarrow>
          if pc' = CHR ''y'' then Some (pc', m')
          else if pc' = CHR ''n'' then Some (pc', m') else f pc' m') = Some r"
  obtain ret pc' m' where s: "scanf_char pc m = (ret, pc', m')"
    by (cases "scanf_char pc m") auto
  with body IH [of pc' m' r] show "fst r = CHR ''y'' \<or> fst r = CHR ''n''"
    by (auto split: if_splits)
qed

lemma yn_loop_returns_only_if:
  assumes "yn_loop pc m = Some r"
  shows "(\<exists>x \<in> set (stdin m). x = CHR ''y'' \<or> x = CHR ''n'') \<or> pc = CHR ''y'' \<or> pc = CHR ''n''"
proof (rule yn_loop.raw_induct [where P = "\<lambda>pc m r.
    (\<exists>x \<in> set (stdin m). x = CHR ''y'' \<or> x = CHR ''n'') \<or> pc = CHR ''y'' \<or> pc = CHR ''n''", OF _ assms])
  fix f :: "char \<Rightarrow> 'a machine \<Rightarrow> (char \<times> 'a machine) option" and pc m r
  assume IH: "\<And>pc m r. f pc m = Some r \<Longrightarrow>
      (\<exists>x \<in> set (stdin m). x = CHR ''y'' \<or> x = CHR ''n'') \<or> pc = CHR ''y'' \<or> pc = CHR ''n''"
    and body: "(case scanf_char pc m of
        (ret, pc', m') \<Rightarrow>
          if pc' = CHR ''y'' then Some (pc', m')
          else if pc' = CHR ''n'' then Some (pc', m') else f pc' m') = Some r"
  show "(\<exists>x \<in> set (stdin m). x = CHR ''y'' \<or> x = CHR ''n'') \<or> pc = CHR ''y'' \<or> pc = CHR ''n''"
  proof (cases "stdin m")
    case Nil
    with body IH [of pc m r] show ?thesis
      by (auto simp: scanf_char_def split: if_splits)
  next
    case (Cons c cs)
    with body IH [of c "m\<lparr>stdin := cs\<rparr>" r] show ?thesis
      by (auto simp: scanf_char_def split: if_splits)
  qed
qed

lemma yn_loop_end_of_input:
  assumes "stdin m = []"
  shows "yn_loop pc m = (if pc = CHR ''y'' \<or> pc = CHR ''n'' then Some (pc, m) else None)"
proof (cases "pc = CHR ''y'' \<or> pc = CHR ''n''")
  case True
  with assms show ?thesis
    by (subst yn_loop.simps) (auto simp: scanf_char_def)
next
  case False
  have "yn_loop pc m = None"
  proof (rule ccontr)
    assume "yn_loop pc m \<noteq> None"
    then obtain r where "yn_loop pc m = Some r" by auto
    from yn_loop_returns_only_if [OF this] assms False show False by simp
  qed
  with False show ?thesis by simp
qed

text \<open>
  C5. Let the input waiting at a yes/no prompt be \<open>pre @ c # rest\<close>, where \<open>c\<close> is the
  first \<open>'y'\<close> or \<open>'n'\<close>. The loop returns with \<open>pc = c\<close> and the input advanced to
  \<open>rest\<close>, whatever \<open>pc\<close> held before. In \<open>process_data\<close>, with such input at the
  denoise prompt and again (in the state \<open>m1\<close> that the denoise step leaves) at the
  pulse-compression prompt, \<open>cinsnowfilters\<close> is applied once, to the state right
  after the first answer, exactly when that answer is \<open>'y'\<close>, and
  \<open>pulse_compress_image\<close> once, to the state right after the second answer, exactly
  when that one is \<open>'y'\<close>; the trace shows each gated call at most once. Whenever
  the loop returns at all, \<open>pc\<close> is \<open>'y'\<close> or \<open>'n'\<close>.
\<close>

theorem yes_no_prompts:
  assumes "stdin (mach w) = pre1 @ c1 # rest1"
    and "\<forall>x \<in> set pre1. x \<noteq> CHR ''y'' \<and> x \<noteq> CHR ''n''"
    and "c1 = CHR ''y'' \<or> c1 = CHR ''n''"
    and "(if c1 = CHR ''y'' then cinsnowfilters ext store ((mach w)\<lparr>stdin := rest1\<rparr>)
          else Some ((mach w)\<lparr>stdin := rest1\<rparr>)) = Some m1"
    and "stdin m1 = pre2 @ c2 # rest2"
    and "\<forall>x \<in> set pre2. x \<noteq> CHR ''y'' \<and> x \<noteq> CHR ''n''"
    and "c2 = CHR ''y'' \<or> c2 = CHR ''n''"
  shows "yn_loop pc (mach w) = Some (c1, (mach w)\<lparr>stdin := rest1\<rparr>)
       \<and> yn_loop pc' m1 = Some (c2, m1\<lparr>stdin := rest2\<rparr>)
       \<and> (\<forall>pc m r. yn_loop pc (m :: 'a machine) = Some r \<longrightarrow> fst r = CHR ''y'' \<or> fst r = CHR ''n'')
       \<and> process_data ext store w = do {
            m2 \<leftarrow> (if c2 = CHR ''y'' then pulse_compress_image ext store (m1\<lparr>stdin := rest2\<rparr>)
                   else Some (m1\<lparr>stdin := rest2\<rparr>));
            m3 \<leftarrow> gbp ext store m2;
            m4 \<leftarrow> gbp_fft ext store m3;
            Some \<lparr>mach = m4,
                  trace = trace w
                    @ [Call Process_data,
                       Printf ''Do you want to employ CinSnow filtering to radar image (y/n)? '']
                    @ (if c1 = CHR ''y''
                       then [Printf ''Running CinSnow filters ... '', Call Cinsnowfilters,
                             Printf ''done.\<newline>'']
                       else [])
                    @ [Printf ''Do you want to enable pulse compression (y/n)? '']
                    @ (if c2 = CHR ''y''
                       then [Printf ''Pulse-compressing image ... '', Call Pulse_compress_image,
                             Printf ''done.\<newline>'']
                       else [])
                    @ [Call Gbp, Printf ''Generating 2D FFT of GBP image ... '', Call Gbp_fft,
                       Printf ''done.\<newline>'']\<rparr>
          }"
proof -
  have l1: "\<And>pc. yn_loop pc (mach w) = Some (c1, (mach w)\<lparr>stdin := rest1\<rparr>)"
    using assms(1-3) by (rule yn_loop_decides)
  have l2: "\<And>pc. yn_loop pc m1 = Some (c2, m1\<lparr>stdin := rest2\<rparr>)"
    using assms(5-7) by (rule yn_loop_decides)
  have "process_data ext store w = do {
            m2 \<leftarrow> (if c2 = CHR ''y'' then pulse_compress_image ext store (m1\<lparr>stdin := rest2\<rparr>)
                   else Some (m1\<lparr>stdin := rest2\<rparr>));
            m3 \<leftarrow> gbp ext store m2;
            m4 \<leftarrow> gbp_fft ext store m3;
            Some \<lparr>mach = m4,
                  trace = trace w
                    @ [Call Process_data,
                       Printf ''Do you want to employ CinSnow filtering to radar image (y/n)? '']
                    @ (if c1 = CHR ''y''
                       then [Printf ''Running CinSnow filters ... '', Call Cinsnowfilters,
                             Printf ''done.\<newline>'']
                       else [])
                    @ [Printf ''Do you want to enable pulse compression (y/n)? '']
                    @ (if c2 = CHR ''y''
                       then [Printf ''Pulse-compressing image ... '', Call Pulse_compress_image,
                             Printf ''done.\<newline>'']
                       else [])
                    @ [Call Gbp, Printf ''Generating 2D FFT of GBP image ... '', Call Gbp_fft,
                       Printf ''done.\<newline>'']\<rparr>
          }"
  proof (cases "c1 = CHR ''y''")
    case True
    with assms(4) have d: "cinsnowfilters ext store ((mach w)\<lparr>stdin := rest1\<rparr>) = Some m1"
      by simp
    show ?thesis
      by (simp add: process_data_def enter_def printf_def call_def l1 l2 d True
          split: Option.bind_split)
  next
    case False
    with assms(4) have d: "m1 = (mach w)\<lparr>stdin := rest1\<rparr>"
      by simp
    show ?thesis
      using l2 unfolding d
      by (simp add: process_data_def enter_def printf_def call_def l1 False
          split: Option.bind_split)
  qed
  moreover have "\<forall>pc m r. yn_loop pc (m :: 'a machine) = Some r \<longrightarrow> fst r = CHR ''y'' \<or> fst r = CHR ''n''"
    using yn_loop_answer by blast
  ultimately show ?thesis using l1 l2 by simp
qed

theorem yes_no_prompts_witness:
  "process_data sample_externals 1
     \<lparr>mach = twin_machine\<lparr>stdin := ''x?y!n''\<rparr>, trace = []\<rparr> =
   Some \<lparr>mach = twin_machine\<lparr>stdin := []\<rparr>,
         trace = [Call Process_data,
                  Printf ''Do you want to employ CinSnow filtering to radar image (y/n)? '',
                  Printf ''Running CinSnow filters ... '', Call Cinsnowfilters,
                  Printf ''done.\<newline>'',
                  Printf ''Do you want to enable pulse compression (y/n)? '',
                  Call Gbp, Printf ''Generating 2D FFT of GBP image ... '', Call Gbp_fft,
                  Printf ''done.\<newline>'']\<rparr>"
proof -
  define w :: "unit world" where "w = \<lparr>mach = twin_machine\<lparr>stdin := ''x?y!n''\<rparr>, trace = []\<rparr>"
  define m1 where "m1 = twin_machine\<lparr>stdin := ''!n''\<rparr>"
  have h: "stdin (mach w) = ''x?'' @ CHR ''y'' # ''!n''"
    "\<forall>x \<in> set ''x?''. x \<noteq> CHR ''y'' \<and> x \<noteq> CHR ''n''"
    "CHR ''y'' = CHR ''y'' \<or> CHR ''y'' = CHR ''n''"
    "(if CHR ''y'' = CHR ''y'' then cinsnowfilters sample_externals 1 ((mach w)\<lparr>stdin := ''!n''\<rparr>)
      else Some ((mach w)\<lparr>stdin := ''!n''\<rparr>)) = Some m1"
    "stdin m1 = ''!'' @ CHR ''n'' # []"
    "\<forall>x \<in> set ''!''. x \<noteq> CHR ''y'' \<and> x \<noteq> CHR ''n''"
    "CHR ''n'' = CHR ''y'' \<or> CHR ''n'' = CHR ''n''"
    by (simp_all add: w_def m1_def sample_externals_def idle_def)
  note run = yes_no_prompts [OF h, of "CHR 0x00" "CHR ''y''",
      THEN conjunct2, THEN conjunct2, THEN conjunct2]
  have "process_data sample_externals 1 w =
   Some \<lparr>mach = twin_machine\<lparr>stdin := []\<rparr>,
         trace = [Call Process_data,
                  Printf ''Do you want to employ CinSnow filtering to radar image (y/n)? '',
                  Printf ''Running CinSnow filters ... '', Call Cinsnowfilters,
                  Printf ''done.\<newline>'',
                  Printf ''Do you want to enable pulse compression (y/n)? '',
                  Call Gbp, Printf ''Generating 2D FFT of GBP image ... '', Call Gbp_fft,
                  Printf ''done.\<newline>'']\<rparr>"
    unfolding run by (simp add: w_def m1_def sample_externals_def idle_def)
  then show ?thesis by (simp only: w_def)
qed

section \<open>Mode selection and acquisition\<close>

lemma of_char_is_p: "(of_char c :: int) = 112 \<longleftrightarrow> c = CHR ''p''"
proof -
  have "(112 :: int) = of_char CHR ''p''" by simp
  then show ?thesis by (simp only: of_char_eq_iff)
qed

lemma of_char_is_s: "(of_char c :: int) = 115 \<longleftrightarrow> c = CHR ''s''"
proof -
  have "(115 :: int) = of_char CHR ''s''" by simp
  then show ?thesis by (simp only: of_char_eq_iff)
qed

lemma header_chain: "chain header_store 1 [1]"
  by (simp add: header_store_def zero_matrix_def)

lemma main_mode:
  "main ext (boot (c # rest) v) =
     (if c = CHR ''p'' then do {
        let w = printf ''Please enter file name of raw data: '' (after_mode c rest v);
        let (ret, m) = scanf_string (mach w);
        let w = w\<lparr>mach := m\<rparr>;
        if ret = EOF then
          Some (0, printf ''Invalid input detected, closing.\<newline>'' w)
        else do {
          (ok, w) \<leftarrow> call_value Read_radar_file (read_radar_file ext 1) w;
          if ok = 0 then
            Some (0, printf ''Failed to read radar data, closing.\<newline>'' w)
          else do {
            w \<leftarrow> process_data ext 1 w;
            finish ext 1 w
          }
        }
      }
      else if c = CHR ''s'' then do {
        (ret, w) \<leftarrow> simulate ext 1 (after_mode c rest v);
        if ret = - 1 then Some (0, w)
        else do {
          w \<leftarrow> process_data ext 1 w;
          finish ext 1 w
        }
      }
      else Some (0, printf ''Mode not recognized - exiting.\<newline>'' (after_mode c rest v)))"
  by (simp add: main_def boot_def malloc_matrix_def memset_matrix_def update_matrix_def
      deref_def printf_def header_store_def getchar_def after_mode_def
      of_char_is_p of_char_is_s Suc_1 del: One_nat_def)

lemma main_end_of_input:
  "main ext (boot [] v) =
     Some (0, \<lparr>mach = \<lparr>nodes = header_store, bufs = Map.empty, brk = 2, stdin = [],
                       variables = v\<lparr>mode := EOF\<rparr>\<rparr>,
               trace = [Printf ''Do you wish to simulate or process radar data? (s/p): '',
                        Printf ''Mode not recognized - exiting.\<newline>'']\<rparr>)"
  by (simp add: main_def boot_def malloc_matrix_def memset_matrix_def update_matrix_def
      deref_def printf_def header_store_def getchar_def Suc_1 del: One_nat_def)

text \<open>
  C3. When the byte read at the mode prompt is neither \<open>'s'\<close> nor \<open>'p'\<close>, \<open>main\<close>
  returns 0 having printed the prompt and the mode-not-recognized line and nothing
  else: no function was called (in particular neither \<open>build_metadata\<close> nor
  \<open>write_data\<close>), and the store is the header named "metadata" alone.
\<close>

theorem unknown_mode_aborts:
  assumes "c \<noteq> CHR ''s''" and "c \<noteq> CHR ''p''"
  shows "main ext (boot (c # rest) v) =
         Some (0, \<lparr>mach = \<lparr>nodes = header_store, bufs = Map.empty, brk = 2, stdin = rest,
                           variables = v\<lparr>mode := of_char c\<rparr>\<rparr>,
                   trace = [Printf ''Do you wish to simulate or process radar data? (s/p): '',
                            Printf ''Mode not recognized - exiting.\<newline>'']\<rparr>)
       \<and> chain header_store 1 [1]
       \<and> header_store 1 = Some \<lparr>name = ''metadata'', rows = 0, cols = 0, data = NULL, next = NULL\<rparr>"
proof -
  from assms have "main ext (boot (c # rest) v) =
         Some (0, \<lparr>mach = \<lparr>nodes = header_store, bufs = Map.empty, brk = 2, stdin = rest,
                           variables = v\<lparr>mode := of_char c\<rparr>\<rparr>,
                   trace = [Printf ''Do you wish to simulate or process radar data? (s/p): '',
                            Printf ''Mode not recognized - exiting.\<newline>'']\<rparr>)"
    unfolding main_mode
    by (simp add: printf_def after_mode_def)
  moreover have "header_store 1 = Some \<lparr>name = ''metadata'', rows = 0, cols = 0, data = NULL, next = NULL\<rparr>"
    by (simp add: header_store_def zero_matrix_def)
  ultimately show ?thesis using header_chain by simp
qed

theorem unknown_mode_aborts_witness:
  "main sample_externals (boot ''x'' no_variables) =
         Some (0, \<lparr>mach = \<lparr>nodes = header_store, bufs = Map.empty, brk = 2, stdin = [],
                           variables = no_variables\<lparr>mode := 120\<rparr>\<rparr>,
                   trace = [Printf ''Do you wish to simulate or process radar data? (s/p): '',
                            Printf ''Mode not recognized - exiting.\<newline>'']\<rparr>)"
proof -
  have "CHR ''x'' \<noteq> CHR ''s''" and "CHR ''x'' \<noteq> CHR ''p''" by simp_all
  from unknown_mode_aborts [OF this, of sample_externals "[]" no_variables, THEN conjunct1]
  show ?thesis by simp
qed

lemma scanf_string_token:
  "dropWhile isspace (stdin m) \<noteq> [] \<Longrightarrow>
   scanf_string m =
     (1, m\<lparr>stdin := dropWhile (\<lambda>c. \<not> isspace c) (dropWhile isspace (stdin m)),
           variables := (variables m)
             \<lparr>radar_data_filename := takeWhile (\<lambda>c. \<not> isspace c) (dropWhile isspace (stdin m))\<rparr>\<rparr>)"
  by (simp add: scanf_string_def Let_def)

lemma scanf_string_end_of_input:
  "dropWhile isspace (stdin m) = [] \<Longrightarrow> scanf_string m = (EOF, m\<lparr>stdin := []\<rparr>)"
  by (simp add: scanf_string_def Let_def)

lemma main_no_filename:
  assumes "dropWhile isspace inp = []"
  shows "main ext (boot (CHR ''p'' # inp) v) =
         Some (0, \<lparr>mach = \<lparr>nodes = header_store, bufs = Map.empty, brk = 2, stdin = [],
                           variables = v\<lparr>mode := of_char CHR ''p''\<rparr>\<rparr>,
                   trace = [Printf ''Do you wish to simulate or process radar data? (s/p): '',
                            Printf ''Please enter file name of raw data: '',
                            Printf ''Invalid input detected, closing.\<newline>'']\<rparr>)"
proof -
  from assms have "scanf_string (mach (printf ''Please enter file name of raw data: ''
      (after_mode CHR ''p'' inp v))) = (EOF, \<lparr>nodes = header_store, bufs = Map.empty, brk = 2, stdin = [],
                           variables = v\<lparr>mode := of_char CHR ''p''\<rparr>\<rparr>)"
    by (subst scanf_string_end_of_input) (simp_all add: printf_def after_mode_def)
  then show ?thesis
    unfolding main_mode
    by (simp add: printf_def after_mode_def Let_def del: One_nat_def)
qed

lemma main_process_mode:
  assumes "dropWhile isspace rest \<noteq> []"
  shows "main ext (boot (CHR ''p'' # rest) v) = do {
           (ok, w) \<leftarrow> call_value Read_radar_file (read_radar_file ext 1) (after_filename rest v);
           if ok = 0 then
             Some (0, printf ''Failed to read radar data, closing.\<newline>'' w)
           else do {
             w \<leftarrow> process_data ext 1 w;
             finish ext 1 w
           }
         }"
proof -
  from assms have "scanf_string (mach (printf ''Please enter file name of raw data: ''
      (after_mode CHR ''p'' rest v))) = (1, mach (after_filename rest v))"
    by (subst scanf_string_token) (simp_all add: printf_def after_mode_def after_filename_def)
  then show ?thesis
    unfolding main_mode
    by (simp add: printf_def after_mode_def after_filename_def Let_def del: One_nat_def)
qed

text \<open>
  C8. In mode \<open>'p'\<close>, with a file name on the input, \<open>read_radar_file\<close> is called in
  the state \<open>mach (after_filename inp v)\<close>, whose store is the header alone. If it
  returns 0, leaving the state \<open>m2\<close>, then \<open>main\<close> returns 0 in exactly that state,
  and the trace holds the two prompts, the call of \<open>read_radar_file\<close> and the failure
  line: \<open>process_data\<close>, \<open>build_metadata\<close> and \<open>write_data\<close> are not called. The
  reader is not in this file; when it reports failure having left the structs of the
  store as it found them, the store at the end of the run is the header named
  "metadata" alone.
\<close>

theorem read_failure_aborts:
  assumes "dropWhile isspace inp \<noteq> []"
    and "read_radar_file ext 1 (mach (after_filename inp v)) = Some (0, m2)"
  shows "main ext (boot (CHR ''p'' # inp) v) =
         Some (0, \<lparr>mach = m2,
                   trace = [Printf ''Do you wish to simulate or process radar data? (s/p): '',
                            Printf ''Please enter file name of raw data: '',
                            Call Read_radar_file,
                            Printf ''Failed to read radar data, closing.\<newline>'']\<rparr>)
       \<and> (nodes m2 = nodes (mach (after_filename inp v)) \<longrightarrow>
            nodes m2 = header_store \<and> chain (nodes m2) 1 [1]
            \<and> nodes m2 1 = Some \<lparr>name = ''metadata'', rows = 0, cols = 0, data = NULL, next = NULL\<rparr>)"
proof -
  from assms(2) have "main ext (boot (CHR ''p'' # inp) v) =
         Some (0, \<lparr>mach = m2,
                   trace = [Printf ''Do you wish to simulate or process radar data? (s/p): '',
                            Printf ''Please enter file name of raw data: '',
                            Call Read_radar_file,
                            Printf ''Failed to read radar data, closing.\<newline>'']\<rparr>)"
    unfolding main_process_mode [OF assms(1)]
    by (simp add: call_value_def printf_def after_filename_def)
  moreover have "nodes (mach (after_filename inp v)) = header_store"
    by (simp add: after_filename_def)
  moreover have "header_store 1 = Some \<lparr>name = ''metadata'', rows = 0, cols = 0, data = NULL, next = NULL\<rparr>"
    by (simp add: header_store_def zero_matrix_def)
  ultimately show ?thesis using header_chain by simp
qed

theorem read_failure_aborts_witness:
  "main unreadable_externals (boot ''p nofile'' no_variables) =
     Some (0, \<lparr>mach = \<lparr>nodes = header_store, bufs = Map.empty, brk = 2, stdin = [],
                       variables = \<lparr>mode = 112, radar_data_filename = ''nofile'',
                                    parameters = ()\<rparr>\<rparr>,
               trace = [Printf ''Do you wish to simulate or process radar data? (s/p): '',
                        Printf ''Please enter file name of raw data: '',
                        Call Read_radar_file,
                        Printf ''Failed to read radar data, closing.\<newline>'']\<rparr>)
   \<and> chain header_store 1 [1]
   \<and> header_store 1 = Some \<lparr>name = ''metadata'', rows = 0, cols = 0, data = NULL, next = NULL\<rparr>"
proof -
  define m1 :: "unit machine" where "m1 = mach (after_filename '' nofile'' no_variables)"
  have tok: "dropWhile isspace '' nofile'' \<noteq> []"
    by (simp add: isspace_def)
  have rd: "read_radar_file unreadable_externals 1 (mach (after_filename '' nofile'' no_variables))
      = Some (0, m1)"
    by (simp add: unreadable_externals_def m1_def)
  have val: "m1 = \<lparr>nodes = header_store, bufs = Map.empty, brk = 2, stdin = [],
                       variables = \<lparr>mode = 112, radar_data_filename = ''nofile'',
                                    parameters = ()\<rparr>\<rparr>"
    by (simp add: m1_def after_filename_def isspace_def no_variables_def)
  have kept: "nodes m1 = nodes (mach (after_filename '' nofile'' no_variables))"
    by (simp add: m1_def)
  from read_failure_aborts [OF tok rd] kept
  show ?thesis by (simp add: val)
qed

section \<open>The FFT artifacts of \<open>simulate\<close>\<close>

lemma simulate_fft_nodes_steps:
  "simulate_fft_nodes store m0 = do {
     p_chirp \<leftarrow> get_matrix (nodes m0) store ''chirp'';
     c \<leftarrow> deref (nodes m0) p_chirp;
     p_match \<leftarrow> get_matrix (nodes m0) store ''match'';
     t \<leftarrow> deref (nodes m0) p_match;
     (b_chirp_fft, m) \<leftarrow> fft_node_step store p_chirp p_chirp ''chirp_fft'' m0;
     (b_match_fft, m) \<leftarrow> fft_node_step store p_match p_chirp ''match_fft'' m;
     Some (\<lparr>meta_chirp = p_chirp, chirp = data c, meta_match = p_match, match = data t,
            chirp_fft = b_chirp_fft, match_fft = b_match_fft\<rparr>, m)
   }"
  by (simp add: simulate_fft_nodes_def fft_node_step_def split_def Let_def)


lemma fft_node_step_chain:
  assumes "chain (nodes m) store as" and "store \<noteq> NULL" and "unused m"
    and "p_len \<in> set as" and "nodes m p_len = Some x"
    and "p_dims \<in> set as" and "nodes m p_dims = Some d"
  shows "fft_node_step store p_len p_dims nm m =
         Some (Suc (brk m),
               m\<lparr>nodes := (nodes m)
                    (last as \<mapsto> (the (nodes m (last as)))\<lparr>next := brk m\<rparr>,
                     brk m \<mapsto> \<lparr>name = nm, rows = rows d, cols = cols d, data = Suc (brk m),
                               next = NULL\<rparr>),
                 bufs := (bufs m)(Suc (brk m) \<mapsto> replicate (rows x) None),
                 brk := Suc (Suc (brk m))\<rparr>)"
proof -
  from assms(3) have b: "brk m \<noteq> NULL" "nodes m (brk m) = None"
    by (simp_all add: unused_def)
  note g = get_last_node_chain [OF assms(1,2) b]
  from assms(1,2) have ne: "as \<noteq> []" by (simp add: chain_nonempty)
  with assms(1) obtain tl_node where tl: "nodes m (last as) = Some tl_node"
    using chain_last_node by blast
  from assms(5,7) b have neq: "p_len \<noteq> brk m" "p_dims \<noteq> brk m" by auto
  from assms(1,4,6) have nn: "p_len \<noteq> NULL" "p_dims \<noteq> NULL"
    using chain_allocated by blast+
  show ?thesis
    using tl neq nn b assms(5,7)
    by (auto simp: fft_node_step_def g deref_def malloc_buffer_def update_matrix_def
        zero_matrix_def)
qed


lemma append_keeps_fields:
  assumes "h p = Some y" and "p \<noteq> a" and "h q = Some z"
  shows "\<exists>y'. (h(q \<mapsto> z\<lparr>next := a\<rparr>, a \<mapsto> f)) p = Some y'
           \<and> name y' = name y \<and> rows y' = rows y \<and> cols y' = cols y \<and> data y' = data y"
  using assms by (cases "p = q") auto

lemma get_matrix_found:
  assumes "chain h store as" and "get_matrix h store nm = Some p" and "p \<noteq> NULL"
  shows "p \<in> set as \<and> named h nm p \<and> store \<noteq> NULL"
proof -
  from get_matrix_chain [OF assms(1), of nm] assms(2,3)
  have "find (named h nm) as = Some p"
    by (auto split: option.splits)
  then have "p \<in> set as \<and> named h nm p"
    by (auto simp: find_Some_iff)
  moreover from this assms(1) have "store \<noteq> NULL"
    by (cases as) auto
  ultimately show ?thesis by simp
qed

lemma simulate_fft_nodes_returns:
  assumes "chain (nodes m0) store as" and "unused m0"
    and "get_matrix (nodes m0) store ''chirp'' = Some pc" and "pc \<noteq> NULL"
    and "nodes m0 pc = Some c"
    and "get_matrix (nodes m0) store ''match'' = Some pm" and "pm \<noteq> NULL"
    and "nodes m0 pm = Some t"
  shows "simulate_fft_nodes store m0 =
         Some (\<lparr>meta_chirp = pc, chirp = data c, meta_match = pm, match = data t,
                chirp_fft = brk m0 + 1, match_fft = brk m0 + 3\<rparr>,
               with_fft_nodes (last as) c t m0)"
proof -
  from get_matrix_found [OF assms(1,3,4)] have pc: "pc \<in> set as" and st: "store \<noteq> NULL"
    by simp_all
  from get_matrix_found [OF assms(1,6,7)] have pm: "pm \<in> set as"
    by simp
  from assms(2) have b: "brk m0 \<noteq> NULL" "nodes m0 (brk m0) = None"
    "nodes m0 (Suc (brk m0)) = None" "nodes m0 (Suc (Suc (brk m0))) = None"
    "bufs m0 (Suc (brk m0)) = None"
    by (simp_all add: unused_def)
  from assms(1) st have ne: "as \<noteq> []" by (simp add: chain_nonempty)
  with assms(1) obtain tl_node where tl: "nodes m0 (last as) = Some tl_node"
    using chain_last_node by blast
  from assms(1) b(2) have new: "brk m0 \<notin> set as"
    using chain_allocated [of "nodes m0" store as "brk m0"] by auto
  from assms(1) b(4) have new2: "Suc (Suc (brk m0)) \<notin> set as"
    using chain_allocated [of "nodes m0" store as "Suc (Suc (brk m0))"] by auto
  define f where "f = \<lparr>name = ''chirp_fft'', rows = rows c, cols = cols c,
                       data = Suc (brk m0), next = NULL\<rparr>"
  define m1 where
    "m1 = m0\<lparr>nodes := (nodes m0)(last as \<mapsto> tl_node\<lparr>next := brk m0\<rparr>, brk m0 \<mapsto> f),
            bufs := (bufs m0)(Suc (brk m0) \<mapsto> replicate (rows c) None),
            brk := Suc (Suc (brk m0))\<rparr>"
  have step1: "fft_node_step store pc pc ''chirp_fft'' m0 = Some (Suc (brk m0), m1)"
    using fft_node_step_chain [OF assms(1) st assms(2) pc assms(5) pc assms(5)] tl
    by (simp add: m1_def f_def)
  have c1: "chain (nodes m1) store (as @ [brk m0])"
    using chain_append_node [OF assms(1) ne tl new b(1), of f]
    by (simp add: m1_def f_def)
  have u1: "unused m1"
    using assms(2) ne new tl by (auto simp: unused_def m1_def)
  have pc1: "pc \<in> set (as @ [brk m0])" and pm1: "pm \<in> set (as @ [brk m0])"
    using pc pm by simp_all
  from pc pm new have "pc \<noteq> brk m0" and "pm \<noteq> brk m0" by auto
  from append_keeps_fields [OF assms(5) \<open>pc \<noteq> brk m0\<close> tl, of f]
  obtain c' where c': "nodes m1 pc = Some c'" "rows c' = rows c" "cols c' = cols c"
    by (auto simp: m1_def)
  from append_keeps_fields [OF assms(8) \<open>pm \<noteq> brk m0\<close> tl, of f]
  obtain t' where t': "nodes m1 pm = Some t'" "rows t' = rows t"
    by (auto simp: m1_def)
  define g where "g = \<lparr>name = ''match_fft'', rows = rows c, cols = cols c,
                       data = Suc (Suc (Suc (brk m0))), next = NULL\<rparr>"
  define m2 where
    "m2 = m1\<lparr>nodes := (nodes m1)(brk m0 \<mapsto> f\<lparr>next := Suc (Suc (brk m0))\<rparr>,
                                   Suc (Suc (brk m0)) \<mapsto> g),
            bufs := (bufs m1)(Suc (Suc (Suc (brk m0))) \<mapsto> replicate (rows t) None),
            brk := Suc (Suc (Suc (Suc (brk m0))))\<rparr>"
  have step2: "fft_node_step store pm pc ''match_fft'' m1 = Some (Suc (Suc (Suc (brk m0))), m2)"
    using fft_node_step_chain [OF c1 st u1 pm1 t'(1) pc1 c'(1)] c'(2,3) t'(2)
    by (simp add: m2_def g_def) (simp add: m1_def)
  have eq: "m2 = with_fft_nodes (last as) c t m0"
    using tl by (simp add: m2_def m1_def with_fft_nodes_def f_def g_def eval_nat_numeral)
  have run: "simulate_fft_nodes store m0 = Some (\<lparr>meta_chirp = pc, chirp = data c, meta_match = pm, match = data t,
                chirp_fft = brk m0 + 1, match_fft = brk m0 + 3\<rparr>, m2)"
    using assms(3-8) pc pm step1 step2
    by (simp add: simulate_fft_nodes_steps deref_def eval_nat_numeral)
  then show ?thesis unfolding eq .
qed

text \<open>
  C7. Let the store be well formed when the two generators have returned, let
  \<open>malloc\<close> hand out fresh addresses, and let the lookups of "chirp" and "match" find
  the structs \<open>c\<close> and \<open>t\<close>, published as the spec says: \<open>c\<close> describes \<open>rows c\<close>
  elements and "match" is as long as "chirp". Then lines 88-106 return, the store
  grows by "chirp_fft" and "match_fft" in this order, and each of the two has a
  buffer of \<open>rows c\<close> samples and records the dimensions of "chirp", whose element
  count is \<open>rows c\<close>. (The buffer of "match_fft" is sized by the rows of "match",
  line 102, and its dimensions are copied from "chirp", lines 104-105; the two agree
  because "match" is as long as "chirp".)
\<close>

theorem fft_artifacts_sizes:
  assumes "chain (nodes m0) store as" and "unused m0"
    and "get_matrix (nodes m0) store ''chirp'' = Some pc" and "pc \<noteq> NULL"
    and "nodes m0 pc = Some c"
    and "get_matrix (nodes m0) store ''match'' = Some pm" and "pm \<noteq> NULL"
    and "nodes m0 pm = Some t"
    and "generated_waveforms c t"
  shows "\<exists>l m f g bf bg. simulate_fft_nodes store m0 = Some (l, m)
           \<and> meta_chirp l = pc \<and> chirp l = data c \<and> meta_match l = pm \<and> match l = data t
           \<and> chain (nodes m) store (as @ [brk m0, brk m0 + 2])
           \<and> nodes m (brk m0) = Some f
           \<and> name f = ''chirp_fft'' \<and> rows f = rows c \<and> cols f = cols c \<and> data f = chirp_fft l
           \<and> bufs m (chirp_fft l) = Some bf \<and> length bf = rows c \<and> rows f * cols f = rows c
           \<and> nodes m (brk m0 + 2) = Some g
           \<and> name g = ''match_fft'' \<and> rows g = rows c \<and> cols g = cols c \<and> data g = match_fft l
           \<and> bufs m (match_fft l) = Some bg \<and> length bg = rows c \<and> rows g * cols g = rows c"
proof -
  from get_matrix_found [OF assms(1,3,4)] have st: "store \<noteq> NULL"
    by simp
  from assms(2) have b: "brk m0 \<noteq> NULL" "nodes m0 (brk m0) = None"
    "nodes m0 (Suc (Suc (brk m0))) = None"
    by (simp_all add: unused_def)
  from assms(1) st have ne: "as \<noteq> []" by (simp add: chain_nonempty)
  with assms(1) obtain tl_node where tl: "nodes m0 (last as) = Some tl_node"
    using chain_last_node by blast
  from assms(1) b(2) have new: "brk m0 \<notin> set as"
    using chain_allocated [of "nodes m0" store as "brk m0"] by auto
  from assms(1) b(3) have new2: "Suc (Suc (brk m0)) \<notin> set (as @ [brk m0])"
    using chain_allocated [of "nodes m0" store as "Suc (Suc (brk m0))"] by auto
  define l where "l = \<lparr>meta_chirp = pc, chirp = data c, meta_match = pm, match = data t,
      chirp_fft = brk m0 + 1, match_fft = brk m0 + 3\<rparr>"
  define m where "m = with_fft_nodes (last as) c t m0"
  define f where "f = \<lparr>name = ''chirp_fft'', rows = rows c, cols = cols c,
                       data = brk m0 + 1, next = brk m0 + 2\<rparr>"
  define g where "g = \<lparr>name = ''match_fft'', rows = rows c, cols = cols c,
                       data = brk m0 + 3, next = NULL\<rparr>"
  have run: "simulate_fft_nodes store m0 = Some (l, m)"
    unfolding l_def m_def by (rule simulate_fft_nodes_returns [OF assms(1-8)])
  have c1: "chain ((nodes m0)(last as \<mapsto> tl_node\<lparr>next := brk m0\<rparr>, brk m0 \<mapsto> f\<lparr>next := NULL\<rparr>))
              store (as @ [brk m0])"
    by (rule chain_append_node [OF assms(1) ne tl new b(1)]) (simp add: f_def)
  have c2: "chain (nodes m) store (as @ [brk m0, brk m0 + 2])"
    using chain_append_node [OF c1 _ _ new2, of "f\<lparr>next := NULL\<rparr>" g] tl
    by (simp add: m_def with_fft_nodes_def f_def g_def eval_nat_numeral)
  have nf: "nodes m (brk m0) = Some f" and ng: "nodes m (brk m0 + 2) = Some g"
    by (simp_all add: m_def with_fft_nodes_def f_def g_def)
  have bf: "bufs m (chirp_fft l) = Some (replicate (rows c) None)"
    and bg: "bufs m (match_fft l) = Some (replicate (rows t) None)"
    by (simp_all add: m_def with_fft_nodes_def l_def)
  from assms(9) have gw: "rows c * cols c = rows c" "rows t = rows c"
    by (simp_all add: generated_waveforms_def)
  show ?thesis
    apply (rule exI [of _ l], rule exI [of _ m], rule exI [of _ f], rule exI [of _ g])
    apply (rule exI [of _ "replicate (rows c) None"], rule exI [of _ "replicate (rows t) None"])
    using run c2 nf ng bf bg gw
    apply (simp add: l_def f_def g_def)
    done
qed

lemma sample_generators_run:
  "\<exists>m1. sample_generator ''chirp'' 4 1 1 (mach (after_mode CHR ''s'' inp no_variables)) = Some m1
       \<and> sample_generator ''match'' k 1 1 m1 = Some ((generated_machine k)\<lparr>stdin := inp\<rparr>)"
proof -
  define m0 :: "unit machine" where "m0 = mach (after_mode CHR ''s'' inp no_variables)"
  have c0: "chain (nodes m0) 1 [1]" and b0: "brk m0 \<noteq> NULL" "nodes m0 (brk m0) = None"
    by (simp_all add: m0_def after_mode_def header_store_def zero_matrix_def)
  have one: "(1::ptr) \<noteq> NULL" by simp
  define m1 :: "unit machine" where
    "m1 = \<lparr>nodes =
        [1 \<mapsto> \<lparr>name = ''metadata'', rows = 0, cols = 0, data = NULL, next = 2\<rparr>,
         2 \<mapsto> \<lparr>name = ''chirp'', rows = 4, cols = 1, data = 3, next = NULL\<rparr>],
      bufs = [3 \<mapsto> replicate 4 None],
      brk = 4, stdin = inp, variables = no_variables\<lparr>mode := 115\<rparr>\<rparr>"
  have s1: "sample_generator ''chirp'' 4 1 1 m0 = Some m1"
    unfolding sample_generator_def get_last_node_chain [OF c0 one b0]
    by (auto simp: m0_def m1_def after_mode_def header_store_def zero_matrix_def
        malloc_buffer_def update_matrix_def deref_def fun_eq_iff)
  have c1: "chain (nodes m1) 1 [1, 2]" and b1: "brk m1 \<noteq> NULL" "nodes m1 (brk m1) = None"
    by (simp_all add: m1_def)
  have s2: "sample_generator ''match'' k 1 1 m1 = Some ((generated_machine k)\<lparr>stdin := inp\<rparr>)"
    unfolding sample_generator_def get_last_node_chain [OF c1 one b1]
    by (auto simp: m1_def generated_machine_def zero_matrix_def
        malloc_buffer_def update_matrix_def deref_def fun_eq_iff)
  from s1 s2 show ?thesis
    unfolding m0_def by blast
qed

lemma generated_machine_facts:
  "chain (nodes (generated_machine k)) 1 [1, 2, 4]"
  "unused (generated_machine k)"
  "get_matrix (nodes (generated_machine k)) 1 ''chirp'' = Some 2"
  "nodes (generated_machine k) 2 = Some \<lparr>name = ''chirp'', rows = 4, cols = 1, data = 3, next = 4\<rparr>"
  "get_matrix (nodes (generated_machine k)) 1 ''match'' = Some 4"
  "nodes (generated_machine k) 4 = Some \<lparr>name = ''match'', rows = k, cols = 1, data = 5, next = NULL\<rparr>"
proof -
  show c: "chain (nodes (generated_machine k)) 1 [1, 2, 4]"
    by (simp add: generated_machine_def)
  show "unused (generated_machine k)"
    by (auto simp: generated_machine_def unused_def)
  show "get_matrix (nodes (generated_machine k)) 1 ''chirp'' = Some 2"
    by (subst get_matrix_chain [OF c]) (simp add: generated_machine_def named_def)
  show "get_matrix (nodes (generated_machine k)) 1 ''match'' = Some 4"
    by (subst get_matrix_chain [OF c]) (simp add: generated_machine_def named_def)
qed (simp_all add: generated_machine_def)

theorem fft_artifacts_sizes_witness:
  "\<exists>l m f g bf bg. simulate_fft_nodes 1 (generated_machine 4) = Some (l, m)
      \<and> chain (nodes m) 1 [1, 2, 4, 6, 8]
      \<and> nodes m 6 = Some f \<and> name f = ''chirp_fft'' \<and> rows f * cols f = 4
      \<and> bufs m (data f) = Some bf \<and> length bf = 4
      \<and> nodes m 8 = Some g \<and> name g = ''match_fft'' \<and> rows g * cols g = 4
      \<and> bufs m (data g) = Some bg \<and> length bg = 4"
proof -
  define c where "c = \<lparr>name = ''chirp'', rows = 4, cols = 1, data = 3, next = 4\<rparr>"
  define t where "t = \<lparr>name = ''match'', rows = 4, cols = 1, data = 5, next = NULL\<rparr>"
  have two: "(2::ptr) \<noteq> NULL" and four: "(4::ptr) \<noteq> NULL" by simp_all
  have gw: "generated_waveforms c t"
    by (simp add: generated_waveforms_def c_def t_def)
  note gm = generated_machine_facts [of 4, folded c_def t_def]
  from fft_artifacts_sizes [OF gm(1,2,3) two gm(4,5) four gm(6) gw]
  obtain l m f g bf bg where r: "simulate_fft_nodes 1 (generated_machine 4) = Some (l, m)"
    "chain (nodes m) 1 ([1, 2, 4] @ [brk (generated_machine 4), brk (generated_machine 4) + 2])"
    "nodes m (brk (generated_machine 4)) = Some f" "name f = ''chirp_fft''"
    "data f = chirp_fft l" "bufs m (chirp_fft l) = Some bf"
    "length bf = rows c" "rows f * cols f = rows c"
    "nodes m (brk (generated_machine 4) + 2) = Some g" "name g = ''match_fft''"
    "data g = match_fft l" "bufs m (match_fft l) = Some bg"
    "length bg = rows c" "rows g * cols g = rows c"
    by (elim exE conjE) (rule that)
  have b: "brk (generated_machine 4) = 6" by (simp add: generated_machine_def)
  have rc: "rows c = 4" by (simp add: c_def)
  from r show ?thesis
    by (simp add: b rc)
qed

section \<open>The summary buffer of \<open>build_metadata\<close>\<close>

lemma count_loop_chain:
  "chain h p as \<Longrightarrow> count_loop h p e = Some (e + of_nat (length as))"
proof (induction as arbitrary: p e)
  case Nil
  then show ?case by (subst count_loop.simps) simp
next
  case (Cons a as)
  then obtain node where node: "p = a" "a \<noteq> NULL" "h a = Some node" "chain h (next node) as"
    by (auto split: option.splits)
  from Cons.IH [OF node(4), of "e + 1"] node show ?case
    by (subst count_loop.simps) (simp add: algebra_simps)
qed

lemma count_loop_returns:
  assumes "count_loop h p e = Some e'"
  shows "\<exists>as. chain h p as"
proof (rule count_loop.raw_induct [where P = "\<lambda>h p e e'. \<exists>as. chain h p as", OF _ assms])
  fix f :: "(ptr \<rightharpoonup> matrix) \<Rightarrow> ptr \<Rightarrow> 32 word \<Rightarrow> 32 word option" and h p e e'
  assume IH: "\<And>h p e e'. f h p e = Some e' \<Longrightarrow> \<exists>as. chain h p as"
    and body: "(if p \<noteq> NULL
          then case h p of None \<Rightarrow> None | Some node \<Rightarrow> f h (next node) (e + 1)
          else Some e) = Some e'"
  show "\<exists>as. chain h p as"
  proof (cases "p = NULL")
    case True
    then have "chain h p []" by simp
    then show ?thesis ..
  next
    case False
    with body obtain node where node: "h p = Some node" and "f h (next node) (e + 1) = Some e'"
      by (auto split: option.splits)
    from IH [OF this(2)] obtain as where "chain h (next node) as" ..
    with False node have "chain h p (p # as)" by simp
    then show ?thesis ..
  qed
qed

lemma build_metadata_chain:
  assumes "chain (nodes m) store (store # as)"
  shows "\<exists>header. nodes m store = Some header
       \<and> build_metadata store m =
           Some (m\<lparr>nodes := (nodes m)(store \<mapsto> header\<lparr>data := brk m\<rparr>),
                   bufs := (bufs m)(brk m \<mapsto>
                     replicate (unat (of_nat (length as) :: 32 word)) None),
                   brk := Suc (brk m)\<rparr>)"
proof -
  from assms obtain header where h: "store \<noteq> NULL" "nodes m store = Some header"
      "chain (nodes m) (next header) as"
    by (auto split: option.splits)
  from count_loop_chain [OF h(3), of 0] h(1,2) show ?thesis
    by (simp add: build_metadata_def deref_def malloc_buffer_def update_matrix_def)
qed

lemma build_metadata_returns:
  assumes "build_metadata store m = Some m'"
  shows "\<exists>as. chain (nodes m) store (store # as)"
proof -
  from assms obtain header e where "store \<noteq> NULL" "nodes m store = Some header"
    "count_loop (nodes m) (next header) 0 = Some e"
    by (auto simp: build_metadata_def deref_def bind_eq_Some_conv split: if_splits)
  moreover from count_loop_returns [OF this(3)] obtain as where "chain (nodes m) (next header) as" ..
  ultimately have "chain (nodes m) store (store # as)" by simp
  then show ?thesis ..
qed

section \<open>The order of the stages\<close>

lemma process_data_steps:
  "process_data ext store w0 = do {
     (pc, w) \<leftarrow> gated_step ''Do you want to employ CinSnow filtering to radar image (y/n)? ''
                  ''Running CinSnow filters ... '' Cinsnowfilters (cinsnowfilters ext store)
                  (CHR 0x00) (enter Process_data w0);
     (pc, w) \<leftarrow> gated_step ''Do you want to enable pulse compression (y/n)? ''
                  ''Pulse-compressing image ... '' Pulse_compress_image
                  (pulse_compress_image ext store) pc w;
     w \<leftarrow> call Gbp (gbp ext store) w;
     w \<leftarrow> call Gbp_fft (gbp_fft ext store) (printf ''Generating 2D FFT of GBP image ... '' w);
     Some (printf ''done.\<newline>'' w)
   }"
  by (simp add: process_data_def gated_step_def split_def Let_def cong del: if_weak_cong)

lemma with_fft_nodes_keeps:
  assumes "nodes m p = Some x" and "unused m"
  shows "\<exists>x'. nodes (with_fft_nodes tail c t m) p = Some x' \<and> rows x' = rows x"
proof -
  from assms have "p \<noteq> brk m" "p \<noteq> brk m + 2"
    by (auto simp: unused_def)
  with assms(1) show ?thesis
    by (cases "p = tail") (simp_all add: with_fft_nodes_def)
qed

lemma simulate_returns:
  assumes "chirp_generator ext store (mach w) = Some m1"
    and "chirp_matched_generator ext store m1 = Some m2"
    and "chain (nodes m2) store as" and "unused m2"
    and "get_matrix (nodes m2) store ''chirp'' = Some pc" and "pc \<noteq> NULL"
    and "nodes m2 pc = Some c"
    and "get_matrix (nodes m2) store ''match'' = Some pm" and "pm \<noteq> NULL"
    and "nodes m2 pm = Some t"
    and "fft_waveform ext (rows c) (data c) (brk m2 + 1) (with_fft_nodes (last as) c t m2) = Some m4"
    and "nodes m4 pm = Some t'"
    and "fft_waveform ext (rows t') (data t) (brk m2 + 3) m4 = Some m5"
    and "pulse_compress_signal ext store m5 = Some m6"
    and "calculate_compressed_pulse_resolution ext store m6 = Some (res, m7)"
    and "insert_waveform_in_scene ext store m7 = Some m8"
    and "radar_imager ext store m8 = Some m9"
  shows "simulate ext store w =
         Some (0, \<lparr>mach = m9,
                   trace = trace w @
                     [Call Simulate, Call Chirp_generator, Call Chirp_matched_generator,
                      Call (Fft_waveform (rows c) (data c) (brk m2 + 1)),
                      Call (Fft_waveform (rows t') (data t) (brk m2 + 3)),
                      Call Pulse_compress_signal,
                      Call Calculate_compressed_pulse_resolution,
                      Printf_lf ''Compressed pulse resolution: %lfm\<newline>'' res,
                      Call Insert_waveform_in_scene, Call Radar_imager]\<rparr>)"
proof -
  note nodes = simulate_fft_nodes_returns [OF assms(3-10)]
  from with_fft_nodes_keeps [OF assms(7,4), of "last as" c t]
  obtain c' where c': "nodes (with_fft_nodes (last as) c t m2) pc = Some c'" "rows c' = rows c"
    by blast
  show ?thesis
    using assms(1,2,6,9,11-17) c'
    by (simp add: simulate_def enter_def call_def call_value_def printf_lf_def deref_def nodes)
qed

lemma gated_step_answered:
  assumes "stdin (mach w) = pre @ a # rest"
    and "\<forall>x \<in> set pre. x \<noteq> CHR ''y'' \<and> x \<noteq> CHR ''n''"
    and "a = CHR ''y'' \<or> a = CHR ''n''"
    and "(if a = CHR ''y'' then run ((mach w)\<lparr>stdin := rest\<rparr>)
          else Some ((mach w)\<lparr>stdin := rest\<rparr>)) = Some m'"
  shows "gated_step prompt running f run pc w =
         Some (a, \<lparr>mach = m',
                   trace = trace w @ [Printf prompt]
                     @ (if a = CHR ''y'' then [Printf running, Call f, Printf ''done.\<newline>'']
                        else [])\<rparr>)"
proof -
  have l: "yn_loop pc (mach w) = Some (a, (mach w)\<lparr>stdin := rest\<rparr>)"
    using assms(1-3) by (rule yn_loop_decides)
  show ?thesis
  proof (cases "a = CHR ''y''")
    case True
    with assms(4) show ?thesis
      by (simp add: gated_step_def l call_def printf_def Let_def)
  next
    case False
    with assms(4) show ?thesis
      by (simp add: gated_step_def l printf_def Let_def)
  qed
qed

lemma process_data_answered:
  assumes "stdin (mach w) = pre1 @ a1 # rest1"
    and "\<forall>x \<in> set pre1. x \<noteq> CHR ''y'' \<and> x \<noteq> CHR ''n''"
    and "a1 = CHR ''y'' \<or> a1 = CHR ''n''"
    and "(if a1 = CHR ''y'' then cinsnowfilters ext store ((mach w)\<lparr>stdin := rest1\<rparr>)
          else Some ((mach w)\<lparr>stdin := rest1\<rparr>)) = Some m10"
    and "stdin m10 = pre2 @ a2 # rest2"
    and "\<forall>x \<in> set pre2. x \<noteq> CHR ''y'' \<and> x \<noteq> CHR ''n''"
    and "a2 = CHR ''y'' \<or> a2 = CHR ''n''"
    and "(if a2 = CHR ''y'' then pulse_compress_image ext store (m10\<lparr>stdin := rest2\<rparr>)
          else Some (m10\<lparr>stdin := rest2\<rparr>)) = Some m11"
    and "gbp ext store m11 = Some m12"
    and "gbp_fft ext store m12 = Some m13"
  shows "process_data ext store w =
         Some \<lparr>mach = m13,
               trace = trace w
                 @ [Call Process_data,
                    Printf ''Do you want to employ CinSnow filtering to radar image (y/n)? '']
                 @ (if a1 = CHR ''y''
                    then [Printf ''Running CinSnow filters ... '', Call Cinsnowfilters,
                          Printf ''done.\<newline>'']
                    else [])
                 @ [Printf ''Do you want to enable pulse compression (y/n)? '']
                 @ (if a2 = CHR ''y''
                    then [Printf ''Pulse-compressing image ... '', Call Pulse_compress_image,
                          Printf ''done.\<newline>'']
                    else [])
                 @ [Call Gbp, Printf ''Generating 2D FFT of GBP image ... '', Call Gbp_fft,
                    Printf ''done.\<newline>'']\<rparr>"
proof -
  define w1 where "w1 = \<lparr>mach = m10,
      trace = trace (enter Process_data w)
        @ [Printf ''Do you want to employ CinSnow filtering to radar image (y/n)? '']
        @ (if a1 = CHR ''y''
           then [Printf ''Running CinSnow filters ... '', Call Cinsnowfilters,
                 Printf ''done.\<newline>'']
           else [])\<rparr>"
  have s1: "gated_step ''Do you want to employ CinSnow filtering to radar image (y/n)? ''
              ''Running CinSnow filters ... '' Cinsnowfilters (cinsnowfilters ext store)
              (CHR 0x00) (enter Process_data w) = Some (a1, w1)"
    unfolding w1_def
    by (rule gated_step_answered [where pre = pre1 and rest = rest1])
       (use assms(1-4) in \<open>auto simp: enter_def split: if_splits\<close>)
  have s2: "gated_step ''Do you want to enable pulse compression (y/n)? ''
              ''Pulse-compressing image ... '' Pulse_compress_image
              (pulse_compress_image ext store) a1 w1 =
            Some (a2, \<lparr>mach = m11,
                       trace = trace w1 @ [Printf ''Do you want to enable pulse compression (y/n)? '']
                         @ (if a2 = CHR ''y''
                            then [Printf ''Pulse-compressing image ... '', Call Pulse_compress_image,
                                  Printf ''done.\<newline>'']
                            else [])\<rparr>)"
    by (rule gated_step_answered [where pre = pre2 and rest = rest2])
       (use assms(5-8) in \<open>auto simp: w1_def split: if_splits\<close>)
  show ?thesis
    unfolding process_data_steps
    by (simp add: s1 s2 call_def printf_def assms(9,10)) (simp add: w1_def enter_def)
qed

lemma finish_returns:
  assumes "chain (nodes (mach w)) store (store # bs)" and "nodes (mach w) store = Some header"
    and "write_data ext store
           ((mach w)\<lparr>nodes := (nodes (mach w))(store \<mapsto> header\<lparr>data := brk (mach w)\<rparr>),
                bufs := (bufs (mach w))(brk (mach w) \<mapsto>
                  replicate (unat (of_nat (length bs) :: 32 word)) None),
                brk := Suc (brk (mach w))\<rparr>) = Some (x, m')"
  shows "finish ext store w =
         Some (0, \<lparr>mach = m', trace = trace w @ [Call Build_metadata, Call Write_data]\<rparr>)"
  using build_metadata_chain [OF assms(1)] assms(2,3)
  by (auto simp: finish_def call_def call_value_def)

text \<open>
  C6. A run in mode \<open>'s'\<close> in which every collaborator returns, the generators have
  published "chirp" and "match" in a well-formed store, each yes/no prompt finds a
  \<open>'y'\<close> or an \<open>'n'\<close> on the input, and the store is well formed at the end of
  \<open>process_data\<close>. Each hypothesis names the state in which a stage is invoked and the
  state it returns. Then \<open>simulate\<close> returns 0 having applied, in this order, the
  chirp generator, the matched-chirp generator, \<open>fft_waveform\<close> on the buffer of
  "chirp" (into the buffer allocated in line 95), \<open>fft_waveform\<close> on the buffer of
  "match" (into the buffer allocated in line 102), \<open>pulse_compress_signal\<close>,
  \<open>calculate_compressed_pulse_resolution\<close>, whose value is printed,
  \<open>insert_waveform_in_scene\<close> and \<open>radar_imager\<close>, each to the state the one before
  returned. \<open>process_data\<close> returns from that state having applied \<open>cinsnowfilters\<close>
  exactly when the first answer is \<open>'y'\<close>, \<open>pulse_compress_image\<close> exactly when the
  second is, and then, whatever the answers, \<open>gbp\<close> and \<open>gbp_fft\<close>. \<open>main\<close> returns 0
  in the state that \<open>write_data\<close> returns, and its trace lists these calls in this
  order and no others.
\<close>

theorem simulate_run_order:
  assumes "chirp_generator ext 1 (mach (after_mode CHR ''s'' inp v)) = Some m1"
    and "chirp_matched_generator ext 1 m1 = Some m2"
    and "chain (nodes m2) 1 as" and "unused m2"
    and "get_matrix (nodes m2) 1 ''chirp'' = Some pc" and "pc \<noteq> NULL"
    and "nodes m2 pc = Some c"
    and "get_matrix (nodes m2) 1 ''match'' = Some pm" and "pm \<noteq> NULL"
    and "nodes m2 pm = Some t"
    and "fft_waveform ext (rows c) (data c) (brk m2 + 1) (with_fft_nodes (last as) c t m2) = Some m4"
    and "nodes m4 pm = Some t'"
    and "fft_waveform ext (rows t') (data t) (brk m2 + 3) m4 = Some m5"
    and "pulse_compress_signal ext 1 m5 = Some m6"
    and "calculate_compressed_pulse_resolution ext 1 m6 = Some (res, m7)"
    and "insert_waveform_in_scene ext 1 m7 = Some m8"
    and "radar_imager ext 1 m8 = Some m9"
    and "stdin m9 = pre1 @ a1 # rest1"
    and "\<forall>x \<in> set pre1. x \<noteq> CHR ''y'' \<and> x \<noteq> CHR ''n''"
    and "a1 = CHR ''y'' \<or> a1 = CHR ''n''"
    and "(if a1 = CHR ''y'' then cinsnowfilters ext 1 (m9\<lparr>stdin := rest1\<rparr>)
          else Some (m9\<lparr>stdin := rest1\<rparr>)) = Some m10"
    and "stdin m10 = pre2 @ a2 # rest2"
    and "\<forall>x \<in> set pre2. x \<noteq> CHR ''y'' \<and> x \<noteq> CHR ''n''"
    and "a2 = CHR ''y'' \<or> a2 = CHR ''n''"
    and "(if a2 = CHR ''y'' then pulse_compress_image ext 1 (m10\<lparr>stdin := rest2\<rparr>)
          else Some (m10\<lparr>stdin := rest2\<rparr>)) = Some m11"
    and "gbp ext 1 m11 = Some m12"
    and "gbp_fft ext 1 m12 = Some m13"
    and "chain (nodes m13) 1 (1 # bs)" and "nodes m13 1 = Some header"
    and "write_data ext 1
           (m13\<lparr>nodes := (nodes m13)(1 \<mapsto> header\<lparr>data := brk m13\<rparr>),
                bufs := (bufs m13)(brk m13 \<mapsto>
                  replicate (unat (of_nat (length bs) :: 32 word)) None),
                brk := Suc (brk m13)\<rparr>) = Some (x, m15)"
  shows "simulate ext 1 (after_mode CHR ''s'' inp v) =
         Some (0, \<lparr>mach = m9,
                   trace =
                     [Printf ''Do you wish to simulate or process radar data? (s/p): '',
                      Call Simulate, Call Chirp_generator, Call Chirp_matched_generator,
                      Call (Fft_waveform (rows c) (data c) (brk m2 + 1)),
                      Call (Fft_waveform (rows t') (data t) (brk m2 + 3)),
                      Call Pulse_compress_signal,
                      Call Calculate_compressed_pulse_resolution,
                      Printf_lf ''Compressed pulse resolution: %lfm\<newline>'' res,
                      Call Insert_waveform_in_scene, Call Radar_imager]\<rparr>)
       \<and> process_data ext 1 \<lparr>mach = m9, trace = tr\<rparr> =
         Some \<lparr>mach = m13,
               trace = tr
                 @ [Call Process_data,
                    Printf ''Do you want to employ CinSnow filtering to radar image (y/n)? '']
                 @ (if a1 = CHR ''y''
                    then [Printf ''Running CinSnow filters ... '', Call Cinsnowfilters,
                          Printf ''done.\<newline>'']
                    else [])
                 @ [Printf ''Do you want to enable pulse compression (y/n)? '']
                 @ (if a2 = CHR ''y''
                    then [Printf ''Pulse-compressing image ... '', Call Pulse_compress_image,
                          Printf ''done.\<newline>'']
                    else [])
                 @ [Call Gbp, Printf ''Generating 2D FFT of GBP image ... '', Call Gbp_fft,
                    Printf ''done.\<newline>'']\<rparr>
       \<and> main ext (boot (CHR ''s'' # inp) v) =
         Some (0,
           \<lparr>mach = m15,
            trace =
              [Printf ''Do you wish to simulate or process radar data? (s/p): '',
               Call Simulate, Call Chirp_generator, Call Chirp_matched_generator,
               Call (Fft_waveform (rows c) (data c) (brk m2 + 1)),
               Call (Fft_waveform (rows t') (data t) (brk m2 + 3)),
               Call Pulse_compress_signal,
               Call Calculate_compressed_pulse_resolution,
               Printf_lf ''Compressed pulse resolution: %lfm\<newline>'' res,
               Call Insert_waveform_in_scene, Call Radar_imager,
               Call Process_data,
               Printf ''Do you want to employ CinSnow filtering to radar image (y/n)? '']
              @ (if a1 = CHR ''y''
                 then [Printf ''Running CinSnow filters ... '', Call Cinsnowfilters,
                       Printf ''done.\<newline>'']
                 else [])
              @ [Printf ''Do you want to enable pulse compression (y/n)? '']
              @ (if a2 = CHR ''y''
                 then [Printf ''Pulse-compressing image ... '', Call Pulse_compress_image,
                       Printf ''done.\<newline>'']
                 else [])
              @ [Call Gbp, Printf ''Generating 2D FFT of GBP image ... '', Call Gbp_fft,
                 Printf ''done.\<newline>'',
                 Call Build_metadata, Call Write_data]\<rparr>)"
proof -
  define t1 where "t1 =
     [Printf ''Do you wish to simulate or process radar data? (s/p): '',
      Call Simulate, Call Chirp_generator, Call Chirp_matched_generator,
      Call (Fft_waveform (rows c) (data c) (brk m2 + 1)),
      Call (Fft_waveform (rows t') (data t) (brk m2 + 3)),
      Call Pulse_compress_signal,
      Call Calculate_compressed_pulse_resolution,
      Printf_lf ''Compressed pulse resolution: %lfm\<newline>'' res,
      Call Insert_waveform_in_scene, Call Radar_imager]"
  define t2 where "t2 =
     [Call Process_data,
      Printf ''Do you want to employ CinSnow filtering to radar image (y/n)? '']
     @ (if a1 = CHR ''y''
        then [Printf ''Running CinSnow filters ... '', Call Cinsnowfilters,
              Printf ''done.\<newline>'']
        else [])
     @ [Printf ''Do you want to enable pulse compression (y/n)? '']
     @ (if a2 = CHR ''y''
        then [Printf ''Pulse-compressing image ... '', Call Pulse_compress_image,
              Printf ''done.\<newline>'']
        else [])
     @ [Call Gbp, Printf ''Generating 2D FFT of GBP image ... '', Call Gbp_fft,
        Printf ''done.\<newline>'']"
  have sim: "simulate ext 1 (after_mode CHR ''s'' inp v) = Some (0, \<lparr>mach = m9, trace = t1\<rparr>)"
    using simulate_returns [OF assms(1-17)]
    by (simp add: t1_def after_mode_def)
  have pd: "process_data ext 1 \<lparr>mach = m9, trace = tr\<rparr> = Some \<lparr>mach = m13, trace = tr @ t2\<rparr>"
    for tr
  proof -
    have h1: "stdin (mach \<lparr>mach = m9, trace = tr\<rparr>) = pre1 @ a1 # rest1"
      using assms(18) by simp
    have h4: "(if a1 = CHR ''y''
               then cinsnowfilters ext 1 ((mach \<lparr>mach = m9, trace = tr\<rparr>)\<lparr>stdin := rest1\<rparr>)
               else Some ((mach \<lparr>mach = m9, trace = tr\<rparr>)\<lparr>stdin := rest1\<rparr>)) = Some m10"
      unfolding world.select_convs by (rule assms(21))
    show ?thesis
      unfolding process_data_answered [OF h1 assms(19,20) h4 assms(22-27)] t2_def
      by simp
  qed
  have fin: "finish ext 1 \<lparr>mach = m13, trace = t1 @ t2\<rparr> =
      Some (0, \<lparr>mach = m15, trace = (t1 @ t2) @ [Call Build_metadata, Call Write_data]\<rparr>)"
    using finish_returns [of "\<lparr>mach = m13, trace = t1 @ t2\<rparr>" 1 bs header ext x m15]
      assms(28-30)
    by simp
  have "main ext (boot (CHR ''s'' # inp) v) =
      Some (0, \<lparr>mach = m15, trace = (t1 @ t2) @ [Call Build_metadata, Call Write_data]\<rparr>)"
    unfolding main_mode by (simp add: sim pd fin del: One_nat_def)
  with sim pd [of tr] show ?thesis
    unfolding t1_def t2_def by simp
qed

theorem simulate_run_order_witness:
  "\<exists>m. main sample_externals (boot ''s?n!y'' no_variables) =
     Some (0,
       \<lparr>mach = m,
        trace =
          [Printf ''Do you wish to simulate or process radar data? (s/p): '',
           Call Simulate, Call Chirp_generator, Call Chirp_matched_generator,
           Call (Fft_waveform 4 3 7), Call (Fft_waveform 4 5 9),
           Call Pulse_compress_signal, Call Calculate_compressed_pulse_resolution,
           Printf_lf ''Compressed pulse resolution: %lfm\<newline>'' (3 / 2),
           Call Insert_waveform_in_scene, Call Radar_imager, Call Process_data,
           Printf ''Do you want to employ CinSnow filtering to radar image (y/n)? '',
           Printf ''Do you want to enable pulse compression (y/n)? '',
           Printf ''Pulse-compressing image ... '', Call Pulse_compress_image,
           Printf ''done.\<newline>'', Call Gbp,
           Printf ''Generating 2D FFT of GBP image ... '', Call Gbp_fft,
           Printf ''done.\<newline>'', Call Build_metadata, Call Write_data]\<rparr>)
     \<and> chain (nodes m) 1 [1, 2, 4, 6, 8] \<and> stdin m = []"
proof -
  define c where "c = \<lparr>name = ''chirp'', rows = 4, cols = 1, data = 3, next = 4\<rparr>"
  define t where "t = \<lparr>name = ''match'', rows = 4, cols = 1, data = 5, next = NULL\<rparr>"
  define m2 :: "unit machine" where "m2 = (generated_machine 4)\<lparr>stdin := ''?n!y''\<rparr>"
  define m3 where "m3 = with_fft_nodes (last [1, 2, 4]) c t m2"
  define header where
    "header = \<lparr>name = ''metadata'', rows = 0, cols = 0, data = NULL, next = 2\<rparr>"
  define m15 where
    "m15 = m3\<lparr>stdin := []\<rparr>
       \<lparr>nodes := (nodes (m3\<lparr>stdin := []\<rparr>))
          (1 \<mapsto> header\<lparr>data := brk (m3\<lparr>stdin := []\<rparr>)\<rparr>),
        bufs := (bufs (m3\<lparr>stdin := []\<rparr>))(brk (m3\<lparr>stdin := []\<rparr>) \<mapsto>
          replicate (unat (of_nat (length [2, 4, 6, 8 :: ptr]) :: 32 word)) None),
        brk := Suc (brk (m3\<lparr>stdin := []\<rparr>))\<rparr>"
  note gm = generated_machine_facts [of 4, folded c_def t_def]
  from sample_generators_run [of "''?n!y''" 4] obtain m1 where
    g1: "chirp_generator sample_externals 1 (mach (after_mode CHR ''s'' ''?n!y'' no_variables))
           = Some m1"
    and g2: "chirp_matched_generator sample_externals 1 m1 = Some m2"
    by (auto simp: sample_externals_def m2_def)
  have st: "chain (nodes m2) 1 [1, 2, 4]" "unused m2"
    "get_matrix (nodes m2) 1 ''chirp'' = Some 2" "(2::ptr) \<noteq> NULL" "nodes m2 2 = Some c"
    "get_matrix (nodes m2) 1 ''match'' = Some 4" "(4::ptr) \<noteq> NULL" "nodes m2 4 = Some t"
    using gm by (simp_all add: m2_def unused_def)
  have brk2: "brk m2 = 6" by (simp add: m2_def generated_machine_def)
  have f1: "fft_waveform sample_externals (rows c) (data c) (brk m2 + 1)
              (with_fft_nodes (last [1, 2, 4]) c t m2) = Some m3"
    by (simp add: sample_externals_def m3_def)
  have n3: "nodes m3 4 = Some (t\<lparr>next := 6\<rparr>)"
    using st(8) by (simp add: m3_def with_fft_nodes_def brk2)
  have f2: "fft_waveform sample_externals (rows (t\<lparr>next := 6\<rparr>)) (data t) (brk m2 + 3) m3 = Some m3"
    by (simp add: sample_externals_def)
  have stages: "pulse_compress_signal sample_externals 1 m3 = Some m3"
    "calculate_compressed_pulse_resolution sample_externals 1 m3 = Some (3 / 2, m3)"
    "insert_waveform_in_scene sample_externals 1 m3 = Some m3"
    "radar_imager sample_externals 1 m3 = Some m3"
    by (simp_all add: sample_externals_def idle_def)
  have a1: "stdin m3 = ''?'' @ CHR ''n'' # ''!y''"
    "\<forall>x \<in> set ''?''. x \<noteq> CHR ''y'' \<and> x \<noteq> CHR ''n''"
    "CHR ''n'' = CHR ''y'' \<or> CHR ''n'' = CHR ''n''"
    "(if CHR ''n'' = CHR ''y'' then cinsnowfilters sample_externals 1 (m3\<lparr>stdin := ''!y''\<rparr>)
      else Some (m3\<lparr>stdin := ''!y''\<rparr>)) = Some (m3\<lparr>stdin := ''!y''\<rparr>)"
    by (simp_all add: m3_def m2_def with_fft_nodes_def generated_machine_def)
  have a2: "stdin (m3\<lparr>stdin := ''!y''\<rparr>) = ''!'' @ CHR ''y'' # []"
    "\<forall>x \<in> set ''!''. x \<noteq> CHR ''y'' \<and> x \<noteq> CHR ''n''"
    "CHR ''y'' = CHR ''y'' \<or> CHR ''y'' = CHR ''n''"
    "(if CHR ''y'' = CHR ''y''
      then pulse_compress_image sample_externals 1 (m3\<lparr>stdin := ''!y''\<rparr>\<lparr>stdin := []\<rparr>)
      else Some (m3\<lparr>stdin := ''!y''\<rparr>\<lparr>stdin := []\<rparr>)) = Some (m3\<lparr>stdin := []\<rparr>)"
    "gbp sample_externals 1 (m3\<lparr>stdin := []\<rparr>) = Some (m3\<lparr>stdin := []\<rparr>)"
    "gbp_fft sample_externals 1 (m3\<lparr>stdin := []\<rparr>) = Some (m3\<lparr>stdin := []\<rparr>)"
    by (simp_all add: sample_externals_def idle_def)
  have nodes3: "nodes (m3\<lparr>stdin := []\<rparr>) =
        [1 \<mapsto> header,
         2 \<mapsto> c,
         4 \<mapsto> t\<lparr>next := 6\<rparr>,
         6 \<mapsto> \<lparr>name = ''chirp_fft'', rows = 4, cols = 1, data = 7, next = 8\<rparr>,
         8 \<mapsto> \<lparr>name = ''match_fft'', rows = 4, cols = 1, data = 9, next = NULL\<rparr>]"
    by (simp add: m3_def m2_def with_fft_nodes_def generated_machine_def header_def c_def t_def)
  have fin: "chain (nodes (m3\<lparr>stdin := []\<rparr>)) 1 (1 # [2, 4, 6, 8])"
    "nodes (m3\<lparr>stdin := []\<rparr>) 1 = Some header"
    unfolding nodes3 by (simp_all add: header_def c_def t_def)
  have wr: "write_data sample_externals 1
           (m3\<lparr>stdin := []\<rparr>
              \<lparr>nodes := (nodes (m3\<lparr>stdin := []\<rparr>))
                 (1 \<mapsto> header\<lparr>data := brk (m3\<lparr>stdin := []\<rparr>)\<rparr>),
               bufs := (bufs (m3\<lparr>stdin := []\<rparr>))(brk (m3\<lparr>stdin := []\<rparr>) \<mapsto>
                 replicate (unat (of_nat (length [2, 4, 6, 8 :: ptr]) :: 32 word)) None),
               brk := Suc (brk (m3\<lparr>stdin := []\<rparr>))\<rparr>) = Some (0, m15)"
    by (simp add: sample_externals_def m15_def)
  have vals: "rows c = 4" "data c = 3" "data t = 5" "rows (t\<lparr>next := 6\<rparr>) = 4"
    by (simp_all add: c_def t_def)
  note run = simulate_run_order [OF g1 g2 st f1 n3 f2 stages a1 a2 fin wr,
      THEN conjunct2, THEN conjunct2]
  have r: "main sample_externals (boot ''s?n!y'' no_variables) =
     Some (0,
       \<lparr>mach = m15,
        trace =
          [Printf ''Do you wish to simulate or process radar data? (s/p): '',
           Call Simulate, Call Chirp_generator, Call Chirp_matched_generator,
           Call (Fft_waveform 4 3 7), Call (Fft_waveform 4 5 9),
           Call Pulse_compress_signal, Call Calculate_compressed_pulse_resolution,
           Printf_lf ''Compressed pulse resolution: %lfm\<newline>'' (3 / 2),
           Call Insert_waveform_in_scene, Call Radar_imager, Call Process_data,
           Printf ''Do you want to employ CinSnow filtering to radar image (y/n)? '',
           Printf ''Do you want to enable pulse compression (y/n)? '',
           Printf ''Pulse-compressing image ... '', Call Pulse_compress_image,
           Printf ''done.\<newline>'', Call Gbp,
           Printf ''Generating 2D FFT of GBP image ... '', Call Gbp_fft,
           Printf ''done.\<newline>'', Call Build_metadata, Call Write_data]\<rparr>)"
    using run by (simp add: vals brk2)
  have c15: "chain (nodes m15) 1 [1, 2, 4, 6, 8]" and s15: "stdin m15 = []"
    unfolding m15_def by (simp_all add: nodes3 header_def c_def t_def)
  from r c15 s15 show ?thesis by blast
qed

section \<open>Metadata and persistence\<close>

lemma call_trace: "call f run w = Some w' \<Longrightarrow> trace w' = trace w @ [Call f]"
  by (auto simp: call_def bind_eq_Some_conv)

lemma call_value_trace: "call_value f run w = Some (x, w') \<Longrightarrow> trace w' = trace w @ [Call f]"
  by (auto simp: call_value_def bind_eq_Some_conv)

lemma gated_step_trace:
  assumes "gated_step prompt running f run pc w = Some (pc', w')"
  shows "trace w' = trace w @ [Printf prompt]
           @ (if pc' = CHR ''y'' then [Printf running, Call f, Printf ''done.\<newline>''] else [])"
proof (cases "pc' = CHR ''y''")
  case True
  with assms show ?thesis
    by (auto simp: gated_step_def printf_def call_def bind_eq_Some_conv Let_def)
next
  case False
  with assms show ?thesis
    by (auto simp: gated_step_def printf_def call_def bind_eq_Some_conv Let_def)
qed

lemma process_data_trace:
  assumes "process_data ext store w = Some w'"
  shows "\<exists>d p. trace w' = trace w
            @ [Call Process_data,
               Printf ''Do you want to employ CinSnow filtering to radar image (y/n)? '']
            @ (if d
               then [Printf ''Running CinSnow filters ... '', Call Cinsnowfilters,
                     Printf ''done.\<newline>'']
               else [])
            @ [Printf ''Do you want to enable pulse compression (y/n)? '']
            @ (if p
               then [Printf ''Pulse-compressing image ... '', Call Pulse_compress_image,
                     Printf ''done.\<newline>'']
               else [])
            @ [Call Gbp, Printf ''Generating 2D FFT of GBP image ... '', Call Gbp_fft,
               Printf ''done.\<newline>'']"
proof -
  from assms obtain pc1 w1 pc2 w2 w3 w4 where
    s1: "gated_step ''Do you want to employ CinSnow filtering to radar image (y/n)? ''
                  ''Running CinSnow filters ... '' Cinsnowfilters (cinsnowfilters ext store)
                  (CHR 0x00) (enter Process_data w) = Some (pc1, w1)"
    and s2: "gated_step ''Do you want to enable pulse compression (y/n)? ''
                  ''Pulse-compressing image ... '' Pulse_compress_image
                  (pulse_compress_image ext store) pc1 w1 = Some (pc2, w2)"
    and s3: "call Gbp (gbp ext store) w2 = Some w3"
    and s4: "call Gbp_fft (gbp_fft ext store) (printf ''Generating 2D FFT of GBP image ... '' w3) = Some w4"
    and s5: "w' = printf ''done.\<newline>'' w4"
    unfolding process_data_steps
    by (auto simp: bind_eq_Some_conv)
  note t = gated_step_trace [OF s1] gated_step_trace [OF s2] call_trace [OF s3] call_trace [OF s4]
  have "trace w' = trace w
            @ [Call Process_data,
               Printf ''Do you want to employ CinSnow filtering to radar image (y/n)? '']
            @ (if pc1 = CHR ''y''
               then [Printf ''Running CinSnow filters ... '', Call Cinsnowfilters,
                     Printf ''done.\<newline>'']
               else [])
            @ [Printf ''Do you want to enable pulse compression (y/n)? '']
            @ (if pc2 = CHR ''y''
               then [Printf ''Pulse-compressing image ... '', Call Pulse_compress_image,
                     Printf ''done.\<newline>'']
               else [])
            @ [Call Gbp, Printf ''Generating 2D FFT of GBP image ... '', Call Gbp_fft,
               Printf ''done.\<newline>'']"
    unfolding s5 by (simp add: t printf_def enter_def)
  then show ?thesis by (intro exI)
qed

lemma simulate_trace:
  assumes "simulate ext store w = Some (r, w')"
  shows "r = 0 \<and> (\<exists>m1 m2 l m3 c m4 t m5 m6 res m7 m8.
      chirp_generator ext store (mach w) = Some m1
    \<and> chirp_matched_generator ext store m1 = Some m2
    \<and> simulate_fft_nodes store m2 = Some (l, m3)
    \<and> deref (nodes m3) (meta_chirp l) = Some c
    \<and> fft_waveform ext (rows c) (chirp l) (chirp_fft l) m3 = Some m4
    \<and> deref (nodes m4) (meta_match l) = Some t
    \<and> fft_waveform ext (rows t) (match l) (match_fft l) m4 = Some m5
    \<and> pulse_compress_signal ext store m5 = Some m6
    \<and> calculate_compressed_pulse_resolution ext store m6 = Some (res, m7)
    \<and> insert_waveform_in_scene ext store m7 = Some m8
    \<and> radar_imager ext store m8 = Some (mach w')
    \<and> trace w' = trace w @
          [Call Simulate, Call Chirp_generator, Call Chirp_matched_generator,
           Call (Fft_waveform (rows c) (chirp l) (chirp_fft l)),
           Call (Fft_waveform (rows t) (match l) (match_fft l)),
           Call Pulse_compress_signal,
           Call Calculate_compressed_pulse_resolution,
           Printf_lf ''Compressed pulse resolution: %lfm\<newline>'' res,
           Call Insert_waveform_in_scene, Call Radar_imager])"
  using assms
  by (auto simp: simulate_def enter_def call_def call_value_def printf_lf_def
      bind_eq_Some_conv Let_def)

lemma finish_trace:
  assumes "finish ext store w = Some (r, w')"
  shows "r = 0 \<and> trace w' = trace w @ [Call Build_metadata, Call Write_data]
       \<and> (\<exists>m ret. build_metadata store (mach w) = Some m
              \<and> write_data ext store m = Some (ret, mach w'))"
  using assms
  by (auto simp: finish_def call_def call_value_def bind_eq_Some_conv)

lemma process_data_no_finish:
  assumes "process_data ext store w = Some w'"
    and "Call Build_metadata \<notin> set (trace w)" and "Call Write_data \<notin> set (trace w)"
  shows "Call Build_metadata \<notin> set (trace w') \<and> Call Write_data \<notin> set (trace w')
       \<and> Call Process_data \<in> set (trace w')"
proof -
  from process_data_trace [OF assms(1)] obtain d p where "trace w' = trace w
            @ [Call Process_data,
               Printf ''Do you want to employ CinSnow filtering to radar image (y/n)? '']
            @ (if d
               then [Printf ''Running CinSnow filters ... '', Call Cinsnowfilters,
                     Printf ''done.\<newline>'']
               else [])
            @ [Printf ''Do you want to enable pulse compression (y/n)? '']
            @ (if p
               then [Printf ''Pulse-compressing image ... '', Call Pulse_compress_image,
                     Printf ''done.\<newline>'']
               else [])
            @ [Call Gbp, Printf ''Generating 2D FFT of GBP image ... '', Call Gbp_fft,
               Printf ''done.\<newline>'']"
    by (elim exE) (rule that)
  with assms(2,3) show ?thesis by simp
qed

lemma simulate_no_finish:
  assumes "simulate ext store w = Some (r, w')"
    and "Call Build_metadata \<notin> set (trace w)" and "Call Write_data \<notin> set (trace w)"
  shows "Call Build_metadata \<notin> set (trace w') \<and> Call Write_data \<notin> set (trace w') \<and> r = 0"
  using simulate_trace [OF assms(1)] assms(2,3) by auto

lemma main_reaches_finish:
  assumes "main ext (boot inp v) = Some (r, w)" and "Call Process_data \<in> set (trace w)"
  shows "\<exists>w1 w2. process_data ext 1 w1 = Some w2 \<and> finish ext 1 w2 = Some (r, w)
           \<and> Call Build_metadata \<notin> set (trace w2) \<and> Call Write_data \<notin> set (trace w2)"
proof (cases inp)
  case Nil
  with assms show ?thesis by (auto simp: main_end_of_input)
next
  case (Cons c rest)
  consider (p) "c = CHR ''p''" | (s) "c = CHR ''s''" | (other) "c \<noteq> CHR ''p''" "c \<noteq> CHR ''s''"
    by blast
  then show ?thesis
  proof cases
    case p
    show ?thesis
    proof (cases "dropWhile isspace rest = []")
      case True
      from assms show ?thesis
        unfolding Cons p main_no_filename [OF True] by auto
    next
      case False
      define w0 where "w0 = after_filename rest v"
      note unfold = main_process_mode [OF False, of ext v, folded w0_def]
      from assms(1) obtain ok w1 where rd: "call_value Read_radar_file (read_radar_file ext 1) w0 = Some (ok, w1)"
        and rest: "(if ok = 0 then
               Some (0, printf ''Failed to read radar data, closing.\<newline>'' w1)
             else do {
               w \<leftarrow> process_data ext 1 w1;
               finish ext 1 w
             }) = Some (r, w)"
        unfolding Cons p unfold by (auto simp: bind_eq_Some_conv)
      from call_value_trace [OF rd] have t1: "trace w1 =
          [Printf ''Do you wish to simulate or process radar data? (s/p): '',
           Printf ''Please enter file name of raw data: '', Call Read_radar_file]"
        by (simp add: w0_def after_filename_def)
      show ?thesis
      proof (cases "ok = 0")
        case True
        with rest assms(2) t1 show ?thesis by (auto simp: printf_def)
      next
        case False
        with rest obtain w2 where pd: "process_data ext 1 w1 = Some w2"
          and fin: "finish ext 1 w2 = Some (r, w)"
          by (auto simp: bind_eq_Some_conv)
        from process_data_no_finish [OF pd] t1 pd fin show ?thesis by auto
      qed
    qed
  next
    case s
    from assms(1) obtain ret w1 where sim: "simulate ext 1 (after_mode CHR ''s'' rest v) = Some (ret, w1)"
      and rest: "(if ret = - 1 then Some (0, w1)
                  else do { w \<leftarrow> process_data ext 1 w1; finish ext 1 w }) = Some (r, w)"
      unfolding Cons s main_mode by (auto simp: bind_eq_Some_conv)
    from simulate_no_finish [OF sim] have n1: "Call Build_metadata \<notin> set (trace w1)"
      "Call Write_data \<notin> set (trace w1)" "ret = 0"
      by (simp_all add: after_mode_def)
    with rest obtain w2 where pd: "process_data ext 1 w1 = Some w2"
      and fin: "finish ext 1 w2 = Some (r, w)"
      by (auto simp: bind_eq_Some_conv)
    from process_data_no_finish [OF pd n1(1,2)] pd fin show ?thesis by auto
  next
    case other
    with assms show ?thesis
      unfolding Cons main_mode by (auto simp: printf_def after_mode_def)
  qed
qed

text \<open>
  Seen from the end of a run: whenever \<open>main\<close> returns after \<open>process_data\<close> was
  entered, the store at the end of \<open>process_data\<close> was a chain (otherwise the counting
  loop would not have returned), and the run ended with \<open>build_metadata\<close> and
  \<open>write_data\<close>.
\<close>

lemma returning_run_finishes:
  assumes "main ext (boot inp v) = Some (r, w)" and "Call Process_data \<in> set (trace w)"
  shows "\<exists>w1 w2 as m3 header buf ret.
      process_data ext 1 w1 = Some w2
    \<and> chain (nodes (mach w2)) 1 (1 # as)
    \<and> build_metadata 1 (mach w2) = Some m3
    \<and> chain (nodes m3) 1 (1 # as)
    \<and> nodes m3 1 = Some header \<and> bufs m3 (data header) = Some buf
    \<and> length buf = unat (of_nat (length as) :: 32 word)
    \<and> (length as < 2 ^ 32 \<longrightarrow> length buf = length as)
    \<and> write_data ext 1 m3 = Some (ret, mach w)
    \<and> trace w = trace w2 @ [Call Build_metadata, Call Write_data]
    \<and> Call Build_metadata \<notin> set (trace w2) \<and> Call Write_data \<notin> set (trace w2)
    \<and> r = 0"
proof -
  from main_reaches_finish [OF assms] obtain w1 w2 where
    pd: "process_data ext 1 w1 = Some w2" and fin: "finish ext 1 w2 = Some (r, w)"
    and no: "Call Build_metadata \<notin> set (trace w2)" "Call Write_data \<notin> set (trace w2)"
    by blast
  from finish_trace [OF fin] obtain m3 ret where
    f: "r = 0" "trace w = trace w2 @ [Call Build_metadata, Call Write_data]"
      "build_metadata 1 (mach w2) = Some m3" "write_data ext 1 m3 = Some (ret, mach w)"
    by blast
  from build_metadata_returns [OF f(3)] obtain as where c: "chain (nodes (mach w2)) 1 (1 # as)" ..
  from build_metadata_chain [OF c] f(3) obtain header0 where
    h0: "nodes (mach w2) 1 = Some header0"
    and m3: "m3 = (mach w2)\<lparr>nodes := (nodes (mach w2))(1 \<mapsto> header0\<lparr>data := brk (mach w2)\<rparr>),
                   bufs := (bufs (mach w2))(brk (mach w2) \<mapsto>
                     replicate (unat (of_nat (length as) :: 32 word)) None),
                   brk := Suc (brk (mach w2))\<rparr>"
    by auto
  define buf :: buffer where "buf = replicate (unat (of_nat (length as) :: 32 word)) None"
  have c3: "chain (nodes m3) 1 (1 # as)"
    using c h0 by (simp add: m3 chain_update_keeping_next)
  have n3: "nodes m3 1 = Some (header0\<lparr>data := brk (mach w2)\<rparr>)"
    by (simp add: m3)
  have b3: "bufs m3 (data (header0\<lparr>data := brk (mach w2)\<rparr>)) = Some buf"
    by (simp add: m3 buf_def)
  have len: "length buf = unat (of_nat (length as) :: 32 word)"
    by (simp add: buf_def)
  have exact: "length as < 2 ^ 32 \<longrightarrow> length buf = length as"
    by (simp add: len unat_of_nat)
  show ?thesis
    apply (rule exI [of _ w1], rule exI [of _ w2], rule exI [of _ as], rule exI [of _ m3])
    apply (rule exI [of _ "header0\<lparr>data := brk (mach w2)\<rparr>"], rule exI [of _ buf])
    apply (rule exI [of _ ret])
    apply (intro conjI)
    apply (rule pd c f c3 n3 b3 len exact no)+
    done
qed

text \<open>
  C4. Let a run reach the end of \<open>process_data\<close> in the world \<open>w2\<close>, in mode \<open>'s'\<close>
  (after \<open>simulate\<close> returned) or in mode \<open>'p'\<close> (after \<open>read_radar_file\<close> reported
  success), and let the store then be a chain: the header followed by the artifacts
  \<open>as\<close>. Then \<open>build_metadata\<close> returns; it leaves the chain as it is and gives the
  header a buffer of \<open>length as\<close> slots, the number being counted in an \<open>unsigned int\<close>
  (so exact for fewer than \<open>2 ^ 32\<close> artifacts). \<open>write_data\<close> is called on that state,
  and when it returns \<open>main\<close> returns 0 in the state it leaves; the trace then ends with
  \<open>build_metadata\<close>, \<open>write_data\<close>, and neither was called before.
\<close>

theorem finish_builds_and_persists:
  assumes "(inp = CHR ''s'' # rest
              \<and> simulate ext 1 (after_mode CHR ''s'' rest v) = Some (ret, w1))
         \<or> (inp = CHR ''p'' # rest \<and> dropWhile isspace rest \<noteq> [] \<and> ret \<noteq> 0
              \<and> call_value Read_radar_file (read_radar_file ext 1) (after_filename rest v)
                  = Some (ret, w1))"
    and "process_data ext 1 w1 = Some w2"
    and "chain (nodes (mach w2)) 1 (1 # as)"
  shows "\<exists>header m3 buf.
      nodes (mach w2) 1 = Some header
    \<and> build_metadata 1 (mach w2) = Some m3
    \<and> nodes m3 = (nodes (mach w2))(1 \<mapsto> header\<lparr>data := brk (mach w2)\<rparr>)
    \<and> bufs m3 = (bufs (mach w2))(brk (mach w2) \<mapsto> buf)
    \<and> length buf = unat (of_nat (length as) :: 32 word)
    \<and> (length as < 2 ^ 32 \<longrightarrow> length buf = length as)
    \<and> chain (nodes m3) 1 (1 # as)
    \<and> main ext (boot inp v) =
          (case write_data ext 1 m3 of
             None \<Rightarrow> None
           | Some (x, m4) \<Rightarrow>
               Some (0, \<lparr>mach = m4, trace = trace w2 @ [Call Build_metadata, Call Write_data]\<rparr>))
    \<and> Call Build_metadata \<notin> set (trace w2) \<and> Call Write_data \<notin> set (trace w2)"
proof -
  from build_metadata_chain [OF assms(3)] obtain header where
    h: "nodes (mach w2) 1 = Some header"
    and bm: "build_metadata 1 (mach w2) =
           Some ((mach w2)\<lparr>nodes := (nodes (mach w2))(1 \<mapsto> header\<lparr>data := brk (mach w2)\<rparr>),
                   bufs := (bufs (mach w2))(brk (mach w2) \<mapsto>
                     replicate (unat (of_nat (length as) :: 32 word)) None),
                   brk := Suc (brk (mach w2))\<rparr>)"
    by blast
  define buf :: buffer where "buf = replicate (unat (of_nat (length as) :: 32 word)) None"
  define m3 where
    "m3 = (mach w2)\<lparr>nodes := (nodes (mach w2))(1 \<mapsto> header\<lparr>data := brk (mach w2)\<rparr>),
                   bufs := (bufs (mach w2))(brk (mach w2) \<mapsto> buf),
                   brk := Suc (brk (mach w2))\<rparr>"
  from bm have bm3: "build_metadata 1 (mach w2) = Some m3"
    by (simp add: m3_def buf_def)
  have n3: "nodes m3 = (nodes (mach w2))(1 \<mapsto> header\<lparr>data := brk (mach w2)\<rparr>)"
    and b3: "bufs m3 = (bufs (mach w2))(brk (mach w2) \<mapsto> buf)"
    by (simp_all add: m3_def)
  have len: "length buf = unat (of_nat (length as) :: 32 word)"
    by (simp add: buf_def)
  have exact: "length as < 2 ^ 32 \<longrightarrow> length buf = length as"
    by (simp add: len unat_of_nat)
  have c3: "chain (nodes m3) 1 (1 # as)"
    using assms(3) h by (simp add: n3 chain_update_keeping_next)
  have fin: "finish ext 1 w2 =
          (case write_data ext 1 m3 of
             None \<Rightarrow> None
           | Some (x, m4) \<Rightarrow>
               Some (0, \<lparr>mach = m4, trace = trace w2 @ [Call Build_metadata, Call Write_data]\<rparr>))"
    by (simp add: finish_def call_def call_value_def bm3 split: option.splits del: One_nat_def)
  from assms(1) have "main ext (boot inp v) = finish ext 1 w2
      \<and> Call Build_metadata \<notin> set (trace w1) \<and> Call Write_data \<notin> set (trace w1)"
  proof (elim disjE conjE)
    assume inp: "inp = CHR ''s'' # rest"
      and sim: "simulate ext 1 (after_mode CHR ''s'' rest v) = Some (ret, w1)"
    from simulate_no_finish [OF sim] have n1: "Call Build_metadata \<notin> set (trace w1)"
      "Call Write_data \<notin> set (trace w1)" "ret = 0"
      by (simp_all add: after_mode_def)
    with sim assms(2) show ?thesis
      unfolding inp main_mode by (simp del: One_nat_def)
  next
    assume inp: "inp = CHR ''p'' # rest" and tok: "dropWhile isspace rest \<noteq> []"
      and ok: "ret \<noteq> 0"
      and rd: "call_value Read_radar_file (read_radar_file ext 1) (after_filename rest v)
                 = Some (ret, w1)"
    from call_value_trace [OF rd] have "trace w1 =
          [Printf ''Do you wish to simulate or process radar data? (s/p): '',
           Printf ''Please enter file name of raw data: '', Call Read_radar_file]"
      by (simp add: after_filename_def)
    with rd ok assms(2) show ?thesis
      unfolding inp main_process_mode [OF tok] by (simp del: One_nat_def)
  qed
  with process_data_no_finish [OF assms(2)] fin
  have m: "main ext (boot inp v) =
          (case write_data ext 1 m3 of
             None \<Rightarrow> None
           | Some (x, m4) \<Rightarrow>
               Some (0, \<lparr>mach = m4, trace = trace w2 @ [Call Build_metadata, Call Write_data]\<rparr>))"
    and no: "Call Build_metadata \<notin> set (trace w2)" "Call Write_data \<notin> set (trace w2)"
    by simp_all
  show ?thesis
    apply (rule exI [of _ header], rule exI [of _ m3], rule exI [of _ buf])
    apply (intro conjI)
    apply (rule h bm3 n3 b3 len exact c3 m no)+
    done
qed

theorem finish_builds_and_persists_witness:
  "\<exists>w (header :: matrix) buf t.
     main sample_externals (boot ''sny'' no_variables) = Some (0, w)
     \<and> chain (nodes (mach w)) 1 [1, 2, 4, 6, 8]
     \<and> nodes (mach w) 1 = Some header \<and> bufs (mach w) (data header) = Some buf
     \<and> length buf = 4
     \<and> trace w = t @ [Call Build_metadata, Call Write_data]"
proof -
  define sim where "sim = simulate sample_externals 1 (after_mode CHR ''s'' ''ny'' no_variables)"
  have "\<not> Option.is_none (simulate sample_externals 1 (after_mode CHR ''s'' ''ny'' no_variables))"
    by code_simp
  then have "\<not> Option.is_none sim" unfolding sim_def .
  then obtain ret w1 where s: "sim = Some (ret, w1)"
    by (cases sim) (auto simp: Option.is_none_def)
  define pd where "pd = process_data sample_externals 1 w1"
  have "\<not> Option.is_none (process_data sample_externals 1
      (snd (the (simulate sample_externals 1 (after_mode CHR ''s'' ''ny'' no_variables)))))"
    by code_simp
  then have "\<not> Option.is_none pd"
    unfolding sim_def [symmetric] s pd_def by simp
  then obtain w2 where p: "pd = Some w2"
    by (cases pd) (auto simp: Option.is_none_def)
  have "chain (nodes (mach (the (process_data sample_externals 1
      (snd (the (simulate sample_externals 1 (after_mode CHR ''s'' ''ny'' no_variables)))))))) 1
      [1, 2, 4, 6, 8]"
    by code_simp
  then have "chain (nodes (mach (the pd))) 1 [1, 2, 4, 6, 8]"
    unfolding sim_def [symmetric] s pd_def by (simp only: option.sel snd_conv)
  then have c: "chain (nodes (mach w2)) 1 (1 # [2, 4, 6, 8])"
    unfolding p by (simp only: option.sel)
  have reach: "(''sny'' = CHR ''s'' # ''ny''
              \<and> simulate sample_externals 1 (after_mode CHR ''s'' ''ny'' no_variables) = Some (ret, w1))
         \<or> (''sny'' = CHR ''p'' # ''ny'' \<and> dropWhile isspace ''ny'' \<noteq> [] \<and> ret \<noteq> 0
              \<and> call_value Read_radar_file (read_radar_file sample_externals 1)
                    (after_filename ''ny'' no_variables) = Some (ret, w1))"
    using s unfolding sim_def by simp
  from finish_builds_and_persists [OF reach p [unfolded pd_def] c]
  obtain header m3 buf where
    "nodes (mach w2) 1 = Some header"
    "build_metadata 1 (mach w2) = Some m3"
    and n3: "nodes m3 = (nodes (mach w2))(1 \<mapsto> header\<lparr>data := brk (mach w2)\<rparr>)"
    and b3: "bufs m3 = (bufs (mach w2))(brk (mach w2) \<mapsto> buf)"
    and "length buf = unat (of_nat (length [2, 4, 6, 8 :: ptr]) :: 32 word)"
    and exact: "length [2, 4, 6, 8 :: ptr] < 2 ^ 32 \<longrightarrow> length buf = length [2, 4, 6, 8 :: ptr]"
    and c3: "chain (nodes m3) 1 (1 # [2, 4, 6, 8])"
    and m: "main sample_externals (boot ''sny'' no_variables) =
          (case write_data sample_externals 1 m3 of
             None \<Rightarrow> None
           | Some (x, m4) \<Rightarrow>
               Some (0, \<lparr>mach = m4, trace = trace w2 @ [Call Build_metadata, Call Write_data]\<rparr>))"
    by (elim exE conjE) (rule that)
  define w :: "unit world" where
    "w = \<lparr>mach = m3, trace = trace w2 @ [Call Build_metadata, Call Write_data]\<rparr>"
  from m have run: "main sample_externals (boot ''sny'' no_variables) = Some (0, w)"
    by (simp add: sample_externals_def w_def)
  from exact have len: "length buf = 4" by simp
  have facts: "chain (nodes (mach w)) 1 [1, 2, 4, 6, 8]"
    "nodes (mach w) 1 = Some (header\<lparr>data := brk (mach w2)\<rparr>)"
    "bufs (mach w) (data (header\<lparr>data := brk (mach w2)\<rparr>)) = Some buf"
    "trace w = trace w2 @ [Call Build_metadata, Call Write_data]"
    using c3 by (simp_all add: w_def n3 b3)
  show ?thesis
    apply (rule exI [of _ w], rule exI [of _ "header\<lparr>data := brk (mach w2)\<rparr>"])
    apply (rule exI [of _ buf], rule exI [of _ "trace w2"])
    apply (intro conjI)
    apply (rule run facts len)+
    done
qed

section \<open>End of input at a prompt\<close>

text \<open>
  C9. What the code does when the input ends at a yes/no prompt. With the input
  \<open>p f y\<close> the reader succeeds, the denoise prompt reads \<open>'y'\<close>, and the
  pulse-compression prompt finds the input at its end: \<open>scanf\<close> fails, \<open>pc\<close> still is
  \<open>'y'\<close>, the loop exits, \<open>pulse_compress_image\<close> runs and the run goes on to
  \<open>write_data\<close>. With the input \<open>p f\<close> the denoise prompt finds the end of the input
  with \<open>pc = 0\<close>: the loop never exits and \<open>main\<close> does not return.
\<close>

theorem end_of_input_at_yes_no_prompt:
  "map_option (trace \<circ> snd) (main sample_externals (boot ''p f y'' no_variables)) =
     Some [Printf ''Do you wish to simulate or process radar data? (s/p): '',
           Printf ''Please enter file name of raw data: '', Call Read_radar_file,
           Call Process_data,
           Printf ''Do you want to employ CinSnow filtering to radar image (y/n)? '',
           Printf ''Running CinSnow filters ... '', Call Cinsnowfilters,
           Printf ''done.\<newline>'',
           Printf ''Do you want to enable pulse compression (y/n)? '',
           Printf ''Pulse-compressing image ... '', Call Pulse_compress_image,
           Printf ''done.\<newline>'', Call Gbp,
           Printf ''Generating 2D FFT of GBP image ... '', Call Gbp_fft,
           Printf ''done.\<newline>'', Call Build_metadata, Call Write_data]
   \<and> yn_loop (CHR ''y'') (boot [] no_variables) = Some (CHR ''y'', boot [] no_variables)
   \<and> yn_loop (CHR 0x00) (boot [] no_variables) = None
   \<and> main sample_externals (boot ''p f'' no_variables) = None"
proof -
  have "map_option (trace \<circ> snd) (main sample_externals (boot ''p f y'' no_variables)) =
     Some [Printf ''Do you wish to simulate or process radar data? (s/p): '',
           Printf ''Please enter file name of raw data: '', Call Read_radar_file,
           Call Process_data,
           Printf ''Do you want to employ CinSnow filtering to radar image (y/n)? '',
           Printf ''Running CinSnow filters ... '', Call Cinsnowfilters,
           Printf ''done.\<newline>'',
           Printf ''Do you want to enable pulse compression (y/n)? '',
           Printf ''Pulse-compressing image ... '', Call Pulse_compress_image,
           Printf ''done.\<newline>'', Call Gbp,
           Printf ''Generating 2D FFT of GBP image ... '', Call Gbp_fft,
           Printf ''done.\<newline>'', Call Build_metadata, Call Write_data]"
    by code_simp
  moreover have "yn_loop (CHR ''y'') (boot [] no_variables) = Some (CHR ''y'', boot [] no_variables)"
    by (subst yn_loop_end_of_input) (simp_all add: boot_def)
  moreover have "yn_loop (CHR 0x00) (boot [] no_variables) = None"
    by (subst yn_loop_end_of_input) (simp_all add: boot_def)
  moreover have "main sample_externals (boot ''p f'' no_variables) = None"
  proof -
    have tok: "dropWhile isspace '' f'' \<noteq> []" by (simp add: isspace_def)
    have hang: "\<And>m :: unit machine. stdin m = [] \<Longrightarrow> yn_loop (CHR 0x00) m = None"
      by (subst yn_loop_end_of_input) simp_all
    show ?thesis
      unfolding main_mode
      by (simp add: printf_def after_mode_def scanf_string_def Let_def isspace_def
          call_value_def sample_externals_def process_data_steps gated_step_def enter_def
          hang del: One_nat_def)
  qed
  ultimately show ?thesis by (intro conjI)
qed

end
